theory Spec2Isabelle
  imports Main
begin

section \<open>Python values shared by the scripts\<close>

text \<open>
  Strings are byte lists; for the ASCII URLs, paths and model names of this program a
  byte is a character. The exceptions the scripts can meet are values of \<open>exn\<close>;
  \<open>FileNotFoundError\<close> carries its message.
\<close>

datatype exn =
    TypeError
  | AttributeError
  | ValueError
  | IndexError
  | ParserRejectedMarkup
  | FileNotFoundError string
  | FileExistsError
  | IsADirectoryError
  | NotADirectoryError
  | JSONDecodeError
  | RuntimeError

definition startswith :: "string \<Rightarrow> string \<Rightarrow> bool" where
  "startswith s p = (take (length p) s = p)"

definition endswith :: "string \<Rightarrow> string \<Rightarrow> bool" where
  "endswith s p = (length p \<le> length s \<and> drop (length s - length p) s = p)"

text \<open>\<open>posixpath.join\<close> for two components.\<close>

definition os_path_join :: "string \<Rightarrow> string \<Rightarrow> string" where
  "os_path_join a b =
     (if startswith b ''/'' then b
      else if a = [] \<or> endswith a ''/'' then a @ b
      else a @ ''/'' @ b)"

text \<open>
  \<open>posixpath.dirname\<close>: the part up to the last slash, without its trailing slashes
  unless it consists of slashes only.
\<close>

definition os_path_dirname :: "string \<Rightarrow> string" where
  "os_path_dirname p =
     (let head = rev (dropWhile (\<lambda>c. c \<noteq> CHR ''/'') (rev p))
      in if head \<noteq> [] \<and> \<not> list_all (\<lambda>c. c = CHR ''/'') head
         then rev (dropWhile (\<lambda>c. c = CHR ''/'') (rev head))
         else head)"

text \<open>The message of the \<open>FileNotFoundError\<close> that the operating system raises for a path.\<close>

definition no_such_file :: "string \<Rightarrow> exn" where
  "no_such_file p =
     FileNotFoundError (''[Errno 2] No such file or directory: '' @ [CHR 0x27] @ p @ [CHR 0x27])"

section \<open>The browser, the parser and the URL library\<close>

text \<open>
  What BeautifulSoup hands to the scripts: the elements carrying a \<open>data-link\<close>
  attribute (attribute value and \<open>get_text\<close> of the element, in document order), the
  \<open>href\<close> of every anchor that has one, and the text of the whole page.
\<close>

record soup =
  data_link_elements :: "(string \<times> string) list"
  a_hrefs :: "string list"
  page_get_text :: string

text \<open>
  The Selenium driver, BeautifulSoup, \<open>urllib.parse\<close>, \<open>tldextract\<close> and Python's
  \<open>hash\<close> are not part of the repository; the scripts are modelled over any behaviour of
  them. \<open>page_source\<close> is \<open>driver.get(url)\<close> followed by \<open>driver.page_source\<close>
  and \<open>html_parser\<close> is \<open>BeautifulSoup(src, "html.parser")\<close>; \<open>None\<close> is a raised
  exception. \<open>urljoin\<close>, \<open>url_netloc\<close> and \<open>url_scheme\<close> are what \<open>urljoin\<close> and the
  \<open>netloc\<close> and \<open>scheme\<close> fields of \<open>urlparse\<close> return, \<open>tld_extract\<close> gives the
  \<open>domain\<close> and \<open>suffix\<close> fields of \<open>tldextract.extract\<close>, and \<open>hash_str u\<close> is the
  text of \<open>hash(u)\<close>. A call of \<open>urljoin\<close>, \<open>urlparse\<close> or \<open>tldextract.extract\<close> can
  raise instead of returning (\<open>urljoin\<close> and \<open>urlparse\<close> raise \<open>ValueError\<close> on a
  reference such as \<open>http://[\<close>): \<open>urljoin_error\<close>, \<open>urlparse_error\<close> and
  \<open>tldextract_error\<close> give the exception of a call, \<open>None\<close> when it returns.
\<close>

record web =
  page_source :: "string \<Rightarrow> string option"
  html_parser :: "string \<Rightarrow> soup option"
  urljoin :: "string \<Rightarrow> string \<Rightarrow> string"
  url_netloc :: "string \<Rightarrow> string"
  url_scheme :: "string \<Rightarrow> string"
  tld_extract :: "string \<Rightarrow> string \<times> string"
  hash_str :: "string \<Rightarrow> string"
  urljoin_error :: "string \<Rightarrow> string \<Rightarrow> exn option"
  urlparse_error :: "string \<Rightarrow> exn option"
  tldextract_error :: "string \<Rightarrow> exn option"

section \<open>app/crawler.py\<close>

text \<open>
  The module globals \<open>visited\<close> and \<open>data_content\<close>, and a log of the URLs handed to
  \<open>driver.get\<close>, oldest first.
\<close>

record crawl_state =
  visited :: "string set"
  data_content :: "string \<rightharpoonup> string"
  driver_gets :: "string list"

text \<open>
  The loop over the \<open>data-link\<close> elements (lines 25 to 30). An exception of
  \<open>urljoin\<close> ends the loop and leaves what was stored before.
\<close>

fun store_data_links ::
  "web \<Rightarrow> string \<Rightarrow> (string \<times> string) list \<Rightarrow> crawl_state \<Rightarrow> crawl_state \<times> exn option" where
  "store_data_links W base_url [] st = (st, None)"
| "store_data_links W base_url ((data_link, content) # els) st =
     (if startswith data_link ''#''
      then (case urljoin_error W base_url data_link of
              Some e \<Rightarrow> (st, Some e)
            | None \<Rightarrow>
                store_data_links W base_url els
                  (st\<lparr>data_content :=
                       (data_content st)(urljoin W base_url data_link \<mapsto> content)\<rparr>))
      else store_data_links W base_url els
             (st\<lparr>data_content := (data_content st)(data_link \<mapsto> content)\<rparr>))"

text \<open>
  \<open>scrape_with_content\<close> is declared with the parameters \<open>(base_url, driver)\<close>. A call
  is modelled with the list of the strings passed before the driver, so that
  \<open>scrape_with_content(u, driver)\<close> is the argument list \<open>[u]\<close> and the call of line 37,
  \<open>scrape_with_content(full_url, base_url, driver)\<close>, is \<open>[full_url, base_url]\<close>.
  Python raises \<open>TypeError\<close> when the number of positional arguments is not the number
  of parameters, before the body runs. The \<open>try\<close> of line 17 encloses the whole body
  after \<open>visited.add\<close>, and its handler prints and returns, whatever was raised: by the
  driver, the parser, \<open>urljoin\<close>, \<open>urlparse\<close> or the call of line 37.
\<close>

function (domintros) scrape_with_content ::
    "web \<Rightarrow> string list \<Rightarrow> crawl_state \<Rightarrow> crawl_state \<times> exn option"
  and follow_links ::
    "web \<Rightarrow> string \<Rightarrow> string list \<Rightarrow> crawl_state \<Rightarrow> crawl_state \<times> exn option"
where
  "scrape_with_content W args st =
     (case args of
        [base_url] \<Rightarrow>
          (if base_url \<in> visited st then (st, None)
           else
             let st1 = st\<lparr>visited := insert base_url (visited st)\<rparr>;
                 st2 = st1\<lparr>driver_gets := driver_gets st1 @ [base_url]\<rparr>
             in (case page_source W base_url of
                   None \<Rightarrow> (st2, None)
                 | Some src \<Rightarrow>
                     (case html_parser W src of
                        None \<Rightarrow> (st2, None)
                      | Some sp \<Rightarrow>
                          (case store_data_links W base_url (data_link_elements sp) st2 of
                             (st3, Some e) \<Rightarrow> (st3, None)
                           | (st3, None) \<Rightarrow>
                               (fst (follow_links W base_url (a_hrefs sp) st3), None)))))
      | _ \<Rightarrow> (st, Some TypeError))"
| "follow_links W base_url [] st = (st, None)"
| "follow_links W base_url (href # rest) st =
     (case urljoin_error W base_url href of
        Some e \<Rightarrow> (st, Some e)
      | None \<Rightarrow>
          (let full_url = urljoin W base_url href
           in case urlparse_error W full_url of
                Some e \<Rightarrow> (st, Some e)
              | None \<Rightarrow>
                  (case urlparse_error W base_url of
                     Some e \<Rightarrow> (st, Some e)
                   | None \<Rightarrow>
                       if url_netloc W full_url = url_netloc W base_url
                       then (case scrape_with_content W [full_url, base_url] st of
                               (st', Some e) \<Rightarrow> (st', Some e)
                             | (st', None) \<Rightarrow> follow_links W base_url rest st')
                       else follow_links W base_url rest st)))"
  by pat_completeness auto
termination
  by (relation "measures
        [\<lambda>x. case x of Inl (W, args, st) \<Rightarrow> (if length args = 1 then 2 else 0) | Inr _ \<Rightarrow> 1,
         \<lambda>x. case x of Inl _ \<Rightarrow> 0 | Inr (W, base_url, hrefs, st) \<Rightarrow> length hrefs]")
     auto

section \<open>scrape_site_script.py\<close>

text \<open>
  The module global \<open>visited_urls\<close>, the disk (a path holds a directory or a text file),
  and a log of the URLs handed to \<open>driver.get\<close>, oldest first.
\<close>

datatype site_entry = SiteDir | SiteFile string

record site_state =
  visited_urls :: "string set"
  site_files :: "string \<rightharpoonup> site_entry"
  site_gets :: "string list"

definition newline :: char where
  "newline = CHR 0x0A"

text \<open>
  \<open>os.makedirs(d, exist_ok=True)\<close>: the empty path and a path that is a file are
  errors, an existing directory is left alone. Only the last directory is recorded, under
  its path without trailing slashes, which is the name \<open>os.path.dirname\<close> gives for
  the files in it.
\<close>

definition strip_trailing_slashes :: "string \<Rightarrow> string" where
  "strip_trailing_slashes d =
     (if list_all (\<lambda>c. c = CHR ''/'') d then d
      else rev (dropWhile (\<lambda>c. c = CHR ''/'') (rev d)))"

definition site_makedirs ::
  "string \<Rightarrow> (string \<rightharpoonup> site_entry) \<Rightarrow> (string \<rightharpoonup> site_entry) \<times> exn option" where
  "site_makedirs d files =
     (if d = [] then (files, Some (no_such_file d))
      else case files (strip_trailing_slashes d) of
             None \<Rightarrow> (files(strip_trailing_slashes d \<mapsto> SiteDir), None)
           | Some SiteDir \<Rightarrow> (files, None)
           | Some (SiteFile t) \<Rightarrow> (files, Some FileExistsError))"

text \<open>
  What \<open>open(p, "w")\<close> and \<open>open(p, "a")\<close> raise: on the empty path, on a path whose
  directory part is missing or is a file, and on a path that is a directory. A path
  without directory part lies in the working directory.
\<close>

definition site_open_error :: "string \<Rightarrow> (string \<rightharpoonup> site_entry) \<Rightarrow> exn option" where
  "site_open_error p files =
     (if p = [] then Some (no_such_file p)
      else
        let d = os_path_dirname p;
            parent = (if d = [] then Some SiteDir else files d)
        in case parent of
             None \<Rightarrow> Some (no_such_file p)
           | Some (SiteFile t) \<Rightarrow> Some NotADirectoryError
           | Some SiteDir \<Rightarrow>
               (case files p of
                  Some SiteDir \<Rightarrow> Some IsADirectoryError
                | _ \<Rightarrow> None))"

text \<open>
  \<open>save_page_text\<close> makes the output directory, writes the page's file and returns the
  text; \<open>os.makedirs\<close> and \<open>open\<close> can raise.
\<close>

definition save_page_text ::
  "web \<Rightarrow> string \<Rightarrow> soup \<Rightarrow> string \<Rightarrow> site_state \<Rightarrow> (exn + string) \<times> site_state" where
  "save_page_text W url sp output_dir st =
     (let filename = os_path_join output_dir (hash_str W url @ ''.txt'');
          page_text = page_get_text sp
      in case site_makedirs output_dir (site_files st) of
           (files1, Some e) \<Rightarrow> (Inl e, st\<lparr>site_files := files1\<rparr>)
         | (files1, None) \<Rightarrow>
             (case site_open_error filename files1 of
                Some e \<Rightarrow> (Inl e, st\<lparr>site_files := files1\<rparr>)
              | None \<Rightarrow>
                  (Inr page_text,
                   st\<lparr>site_files := files1
                         (filename \<mapsto>
                            SiteFile (''URL: '' @ url @ [newline, newline] @ page_text))\<rparr>)))"

text \<open>\<open>save_to_combined_file\<close> opens the combined file in append mode.\<close>

definition save_to_combined_file ::
  "string \<Rightarrow> string \<Rightarrow> string \<Rightarrow> site_state \<Rightarrow> site_state \<times> exn option" where
  "save_to_combined_file url page_text combined_file st =
     (case site_open_error combined_file (site_files st) of
        Some e \<Rightarrow> (st, Some e)
      | None \<Rightarrow>
          (let old = (case site_files st combined_file of Some (SiteFile t) \<Rightarrow> t | _ \<Rightarrow> [])
           in (st\<lparr>site_files := (site_files st)
                    (combined_file \<mapsto>
                       SiteFile (old @ [newline, newline] @ ''=== URL: '' @ url @ '' ===''
                                   @ [newline, newline] @ page_text))\<rparr>,
               None)))"

definition is_valid_url :: "web \<Rightarrow> string \<Rightarrow> exn + bool" where
  "is_valid_url W href =
     (case urlparse_error W href of
        Some e \<Rightarrow> Inl e
      | None \<Rightarrow> Inr (url_scheme W href \<in> {''http'', ''https'', []}))"

definition is_same_domain :: "web \<Rightarrow> string \<Rightarrow> string \<Rightarrow> exn + bool" where
  "is_same_domain W url domain =
     (case tldextract_error W domain of
        Some e \<Rightarrow> Inl e
      | None \<Rightarrow>
          (case tldextract_error W url of
             Some e \<Rightarrow> Inl e
           | None \<Rightarrow>
               (let parsed_domain = tld_extract W domain;
                    parsed_url = tld_extract W url
                in Inr (fst parsed_domain = fst parsed_url
                        \<and> snd parsed_domain = snd parsed_url))))"

text \<open>
  The condition of line 52, \<open>is_valid_url(full_url) and is_same_domain(full_url, domain)\<close>:
  the second call is made only when the first returns \<open>True\<close>.
\<close>

definition in_scope :: "web \<Rightarrow> string \<Rightarrow> string \<Rightarrow> exn + bool" where
  "in_scope W full_url domain =
     (case is_valid_url W full_url of
        Inl e \<Rightarrow> Inl e
      | Inr valid \<Rightarrow> if valid then is_same_domain W full_url domain else Inr False)"

text \<open>
  \<open>scrape_site\<close> and its loop over the anchors. Only \<open>driver.get\<close> and
  \<open>driver.page_source\<close> stand inside the \<open>try\<close> (lines 35 to 41). The parser, the two
  functions that write files, \<open>urljoin\<close>, \<open>urlparse\<close> and \<open>tldextract\<close> are called after
  it, so an exception of one of them leaves the function and every caller above it.
\<close>

function (domintros) scrape_site ::
    "web \<Rightarrow> string \<Rightarrow> string \<Rightarrow> string \<Rightarrow> string \<Rightarrow> int \<Rightarrow> int \<Rightarrow> site_state
       \<Rightarrow> site_state \<times> exn option"
  and scrape_site_links ::
    "web \<Rightarrow> string \<Rightarrow> string \<Rightarrow> string \<Rightarrow> string \<Rightarrow> int \<Rightarrow> int \<Rightarrow> string list \<Rightarrow> site_state
       \<Rightarrow> site_state \<times> exn option"
where
  "scrape_site W base_url domain output_dir combined_file max_depth current_depth st =
     (if base_url \<in> visited_urls st \<or> current_depth > max_depth then (st, None)
      else
        let st1 = st\<lparr>visited_urls := insert base_url (visited_urls st)\<rparr>;
            st2 = st1\<lparr>site_gets := site_gets st1 @ [base_url]\<rparr>
        in (case page_source W base_url of
              None \<Rightarrow> (st2, None)
            | Some src \<Rightarrow>
                (case html_parser W src of
                   None \<Rightarrow> (st2, Some ParserRejectedMarkup)
                 | Some sp \<Rightarrow>
                     (case save_page_text W base_url sp output_dir st2 of
                        (Inl e, st3) \<Rightarrow> (st3, Some e)
                      | (Inr page_text, st3) \<Rightarrow>
                          (case save_to_combined_file base_url page_text combined_file st3 of
                             (st4, Some e) \<Rightarrow> (st4, Some e)
                           | (st4, None) \<Rightarrow>
                               scrape_site_links W base_url domain output_dir combined_file
                                 max_depth current_depth (a_hrefs sp) st4)))))"
| "scrape_site_links W base_url domain output_dir combined_file max_depth current_depth [] st =
     (st, None)"
| "scrape_site_links W base_url domain output_dir combined_file max_depth current_depth
     (href # rest) st =
     (case urljoin_error W base_url href of
        Some e \<Rightarrow> (st, Some e)
      | None \<Rightarrow>
          (let full_url = urljoin W base_url href
           in case in_scope W full_url domain of
                Inl e \<Rightarrow> (st, Some e)
              | Inr go \<Rightarrow>
                  if go
                  then (case scrape_site W full_url domain output_dir combined_file max_depth
                               (current_depth + 1) st of
                          (st', Some e) \<Rightarrow> (st', Some e)
                        | (st', None) \<Rightarrow>
                            scrape_site_links W base_url domain output_dir combined_file
                              max_depth current_depth rest st')
                  else scrape_site_links W base_url domain output_dir combined_file max_depth
                         current_depth rest st))"
  by pat_completeness auto
termination
  by (relation "measures
        [\<lambda>x. case x of
                Inl (W, u, d, od, cf, max_depth, current_depth, st) \<Rightarrow>
                  2 * nat (max_depth + 1 - current_depth)
              | Inr (W, u, d, od, cf, max_depth, current_depth, hrefs, st) \<Rightarrow>
                  2 * nat (max_depth - current_depth) + 1,
         \<lambda>x. case x of
                Inl _ \<Rightarrow> 0
              | Inr (W, u, d, od, cf, max_depth, current_depth, hrefs, st) \<Rightarrow> length hrefs]")
     auto

section \<open>Files on disk\<close>

text \<open>
  A chunk is the dictionary with the three keys \<open>data_link\<close>, \<open>chunk_id\<close> and
  \<open>content\<close> that \<open>chunk_content\<close> writes and \<open>load_chunks\<close> reads.
\<close>

record chunk =
  data_link :: string
  chunk_id :: string
  content :: string

text \<open>
  What a path can hold: a directory, the dataset file (the JSON object of the crawler, as
  its \<open>items()\<close> in order), the chunk file (a JSON list of chunks), any other file, or
  the folder that \<open>FAISS.save_local\<close> creates for an index. \<open>'i\<close> is the type of the
  FAISS vector store, which the program never looks into.
\<close>

datatype 'i fs_entry =
    Directory
  | DatasetJson "(string \<times> string) list"
  | ChunksJson "chunk list"
  | OtherFile string
  | IndexFolder 'i

type_synonym 'i fs = "string \<rightharpoonup> 'i fs_entry"

definition os_path_exists :: "'i fs \<Rightarrow> string \<Rightarrow> bool" where
  "os_path_exists fs p = (fs p \<noteq> None)"

fun is_dir :: "'i fs_entry \<Rightarrow> bool" where
  "is_dir Directory = True"
| "is_dir (IndexFolder idx) = True"
| "is_dir (DatasetJson d) = False"
| "is_dir (ChunksJson c) = False"
| "is_dir (OtherFile t) = False"

text \<open>
  \<open>os.makedirs(d, exist_ok=True)\<close>: the empty path and a path that is a file are
  errors, an existing directory is left alone. Only the last directory is recorded.
\<close>

definition os_makedirs :: "string \<Rightarrow> 'i fs \<Rightarrow> 'i fs \<times> exn option" where
  "os_makedirs d fs =
     (if d = [] then (fs, Some (no_such_file d))
      else case fs d of
             None \<Rightarrow> (fs(d \<mapsto> Directory), None)
           | Some e \<Rightarrow> if is_dir e then (fs, None) else (fs, Some FileExistsError))"

text \<open>
  \<open>os.remove\<close> deletes a file and raises an \<open>OSError\<close> on a directory
  (\<open>IsADirectoryError\<close> on Linux).
\<close>

definition os_remove :: "string \<Rightarrow> 'i fs \<Rightarrow> 'i fs \<times> exn option" where
  "os_remove p fs =
     (case fs p of
        None \<Rightarrow> (fs, Some (no_such_file p))
      | Some e \<Rightarrow> if is_dir e then (fs, Some IsADirectoryError) else (fs(p := None), None))"

section \<open>app/chunker.py\<close>

text \<open>Python's \<open>str\<close> of a natural number, for the \<open>{i}\<close> of the f-string.\<close>

definition digit_char :: "nat \<Rightarrow> char" where
  "digit_char d = char_of (48 + d)"

fun str_nat :: "nat \<Rightarrow> string" where
  "str_nat n = (if n < 10 then [digit_char n] else str_nat (n div 10) @ [digit_char (n mod 10)])"

declare str_nat.simps [simp del]

text \<open>
  The inner loop, \<open>for i, chunk in enumerate(chunked_content)\<close>, from index \<open>i\<close> on,
  and the outer loop over \<open>data.items()\<close>. \<open>split_text\<close> is the method of the
  \<open>RecursiveCharacterTextSplitter\<close> of the langchain library; the library is not part of
  the repository.
\<close>

fun enumerate_chunks :: "string \<Rightarrow> nat \<Rightarrow> string list \<Rightarrow> chunk list" where
  "enumerate_chunks link i [] = []"
| "enumerate_chunks link i (c # cs) =
     \<lparr>data_link = link, chunk_id = link @ ''_chunk_'' @ str_nat i, content = c\<rparr>
       # enumerate_chunks link (i + 1) cs"

fun split_items :: "(string \<Rightarrow> string list) \<Rightarrow> (string \<times> string) list \<Rightarrow> chunk list" where
  "split_items split_text [] = []"
| "split_items split_text ((link, text) # items) =
     enumerate_chunks link 0 (split_text text) @ split_items split_text items"

text \<open>
  \<open>open(input_file)\<close> and \<open>json.load\<close>, on a path that exists: the document is
  a JSON object, as the crawler writes it, or a JSON array.
\<close>

datatype json_doc = JsonObject "(string \<times> string) list" | JsonArray "chunk list"

definition json_load :: "'i fs \<Rightarrow> string \<Rightarrow> exn + json_doc" where
  "json_load fs p =
     (case fs p of
        Some (DatasetJson d) \<Rightarrow> Inr (JsonObject d)
      | Some (ChunksJson c) \<Rightarrow> Inr (JsonArray c)
      | Some Directory \<Rightarrow> Inl IsADirectoryError
      | Some (IndexFolder idx) \<Rightarrow> Inl IsADirectoryError
      | Some (OtherFile t) \<Rightarrow> Inl JSONDecodeError
      | None \<Rightarrow> Inl (no_such_file p))"

text \<open>\<open>open(output_file, 'w')\<close> and \<open>json.dump\<close>.\<close>

definition json_dump_chunks :: "string \<Rightarrow> chunk list \<Rightarrow> 'i fs \<Rightarrow> 'i fs \<times> exn option" where
  "json_dump_chunks p chunks fs =
     (case fs p of
        None \<Rightarrow> (fs(p \<mapsto> ChunksJson chunks), None)
      | Some e \<Rightarrow>
          if is_dir e then (fs, Some IsADirectoryError)
          else (fs(p \<mapsto> ChunksJson chunks), None))"

text \<open>
  The constructor of line 15. It raises \<open>ValueError\<close> when the overlap is larger than
  the chunk size; which other sizes it refuses depends on the version of the library
  (recent ones refuse a chunk size that is not positive and a negative overlap), so the
  rest is left to \<open>splitter\<close>, which stands for the library: the exception raised for
  the two sizes, or the \<open>split_text\<close> of the splitter built.
\<close>

definition RecursiveCharacterTextSplitter ::
  "(int \<Rightarrow> int \<Rightarrow> exn + (string \<Rightarrow> string list)) \<Rightarrow> int \<Rightarrow> int
     \<Rightarrow> exn + (string \<Rightarrow> string list)" where
  "RecursiveCharacterTextSplitter splitter chunk_size chunk_overlap =
     (if chunk_overlap > chunk_size then Inl ValueError else splitter chunk_size chunk_overlap)"

text \<open>
  \<open>chunk_content\<close>. The check of lines 7 and 8 raises with the message of line 8; the
  file is loaded, the splitter is built and the chunks are computed before the output
  directory is made and the output file is opened. A JSON array has no \<open>items\<close>, so
  line 19 raises \<open>AttributeError\<close> on it.
\<close>

definition chunk_content ::
  "(int \<Rightarrow> int \<Rightarrow> exn + (string \<Rightarrow> string list)) \<Rightarrow> string \<Rightarrow> string \<Rightarrow> int \<Rightarrow> int
     \<Rightarrow> 'i fs \<Rightarrow> 'i fs \<times> exn option" where
  "chunk_content splitter input_file output_file chunk_size chunk_overlap fs =
     (if \<not> os_path_exists fs input_file
      then (fs, Some (FileNotFoundError (''Input file not found: '' @ input_file)))
      else case json_load fs input_file of
             Inl e \<Rightarrow> (fs, Some e)
           | Inr doc \<Rightarrow>
               (case RecursiveCharacterTextSplitter splitter chunk_size chunk_overlap of
                  Inl e \<Rightarrow> (fs, Some e)
                | Inr split_text \<Rightarrow>
                    (case doc of
                       JsonArray l \<Rightarrow> (fs, Some AttributeError)
                     | JsonObject data \<Rightarrow>
                         let chunks = split_items split_text data
                         in (case os_makedirs (os_path_dirname output_file) fs of
                               (fs1, Some e) \<Rightarrow> (fs1, Some e)
                             | (fs1, None) \<Rightarrow> json_dump_chunks output_file chunks fs1))))"

section \<open>app/streamlit-chat.py\<close>

definition BASE_URL :: string where
  "BASE_URL = ''https://www.udelphi.com''"

definition FAISS_INDEX_DIR :: string where
  "FAISS_INDEX_DIR = ''./faiss_indices''"

text \<open>
  The decorator \<open>st.cache_resource\<close> of \<open>create_vector_store\<close> and
  \<open>load_or_create_vector_store\<close> keeps the value a call returned for its arguments; it
  is part of their definitions below. \<open>load_chunks\<close> is defined as a run of its body: a
  value that \<open>st.cache_data\<close> returns for it is one that a run of the body returned for
  the same arguments.

  \<open>get_index_name\<close>. \<open>md5_hexdigest s\<close> stands for
  \<open>hashlib.md5(s.encode()).hexdigest()\<close>; the program is modelled over any digest
  function.
\<close>

definition unique_string :: "string \<Rightarrow> string \<Rightarrow> string" where
  "unique_string json_file_path embedding_model_name =
     json_file_path @ ''_'' @ embedding_model_name"

definition get_index_name :: "(string \<Rightarrow> string) \<Rightarrow> string \<Rightarrow> string \<Rightarrow> string" where
  "get_index_name md5_hexdigest json_file_path embedding_model_name =
     ''faiss_index_'' @ md5_hexdigest (unique_string json_file_path embedding_model_name)"

definition index_path_of :: "(string \<Rightarrow> string) \<Rightarrow> string \<Rightarrow> string \<Rightarrow> string" where
  "index_path_of md5_hexdigest json_file_path embedding_model_name =
     os_path_join FAISS_INDEX_DIR (get_index_name md5_hexdigest json_file_path embedding_model_name)"

text \<open>
  \<open>load_chunks\<close>: the rewriting of one chunk's \<open>data_link\<close>, and the function. On
  a file that holds a JSON object the loop of line 45 runs over its keys, which are
  strings and have no \<open>get\<close>: line 46 raises \<open>AttributeError\<close>, unless the object is
  empty and the loop does not run.
\<close>

definition complete_data_link :: "string \<Rightarrow> chunk \<Rightarrow> chunk" where
  "complete_data_link base_url c =
     (if startswith (data_link c) ''#'' then c\<lparr>data_link := base_url @ data_link c\<rparr>
      else if \<not> startswith (data_link c) ''http''
      then c\<lparr>data_link := base_url @ ''/'' @ dropWhile (\<lambda>x. x = CHR ''/'') (data_link c)\<rparr>
      else c)"

definition load_chunks :: "'i fs \<Rightarrow> string \<Rightarrow> string \<Rightarrow> exn + chunk list" where
  "load_chunks fs json_file_path base_url =
     (if \<not> os_path_exists fs json_file_path then Inr []
      else case fs json_file_path of
             Some (ChunksJson data) \<Rightarrow> Inr (map (complete_data_link base_url) data)
           | Some Directory \<Rightarrow> Inl IsADirectoryError
           | Some (IndexFolder idx) \<Rightarrow> Inl IsADirectoryError
           | Some (DatasetJson d) \<Rightarrow> if d = [] then Inr [] else Inl AttributeError
           | Some (OtherFile t) \<Rightarrow> Inl JSONDecodeError
           | None \<Rightarrow> Inr [])"

text \<open>
  The state of the app's world: the disk, the texts handed to the embedding model through
  \<open>FAISS.from_texts\<close>, oldest first, and the two tables of \<open>st.cache_resource\<close>, one
  for each decorated function, from the arguments of a call to the value it returned.

  The library: \<open>embeddings_error model\<close> is the exception that
  \<open>HuggingFaceEmbeddings(model_name=model)\<close> raises, \<open>None\<close> when the model loads;
  \<open>from_texts model texts metadatas\<close> is \<open>FAISS.from_texts\<close> on a list of texts that is
  not empty, which embeds every text of the list once and returns the vector store, or
  raises; \<open>md5\<close> is the digest above.
\<close>

record 'i app_state =
  disk :: "'i fs"
  embedded :: "string list"
  create_cache :: "chunk list \<times> string \<times> string \<rightharpoonup> 'i \<times> string"
  load_cache :: "chunk list \<times> string \<times> string \<rightharpoonup> 'i"

record 'i library =
  embeddings_error :: "string \<Rightarrow> exn option"
  from_texts :: "string \<Rightarrow> string list \<Rightarrow> (string \<times> string) list \<Rightarrow> exn + 'i"
  md5 :: "string \<Rightarrow> string"

text \<open>
  \<open>FAISS.from_texts\<close> takes the dimension of the index from the first embedding, so on
  an empty list of texts it raises \<open>IndexError\<close>.
\<close>

definition FAISS_from_texts ::
  "'i library \<Rightarrow> string \<Rightarrow> string list \<Rightarrow> (string \<times> string) list \<Rightarrow> exn + 'i" where
  "FAISS_from_texts L model texts metadatas =
     (if texts = [] then Inl IndexError else from_texts L model texts metadatas)"

text \<open>
  \<open>vector_store.save_local(folder)\<close> makes the folder (\<open>mkdir\<close> with
  \<open>exist_ok\<close>) and writes the index into it; \<open>FAISS.load_local(folder, ...)\<close> reads
  it back, and raises when the path holds anything else.
\<close>

definition save_local :: "string \<Rightarrow> 'i \<Rightarrow> 'i fs \<Rightarrow> 'i fs \<times> exn option" where
  "save_local folder_path vector_store fs =
     (case fs folder_path of
        None \<Rightarrow> (fs(folder_path \<mapsto> IndexFolder vector_store), None)
      | Some e \<Rightarrow>
          if is_dir e then (fs(folder_path \<mapsto> IndexFolder vector_store), None)
          else (fs, Some FileExistsError))"

definition load_local :: "string \<Rightarrow> 'i fs \<Rightarrow> exn + 'i" where
  "load_local folder_path fs =
     (case fs folder_path of
        Some (IndexFolder vector_store) \<Rightarrow> Inr vector_store
      | _ \<Rightarrow> Inl RuntimeError)"

text \<open>The body of \<open>create_vector_store\<close> (lines 59 to 91).\<close>

definition create_vector_store_body ::
  "'i library \<Rightarrow> chunk list \<Rightarrow> string \<Rightarrow> string \<Rightarrow> 'i app_state
     \<Rightarrow> (exn + 'i \<times> string) \<times> 'i app_state" where
  "create_vector_store_body L chunks embedding_model_name json_file_path st =
     (case embeddings_error L embedding_model_name of
        Some e \<Rightarrow> (Inl e, st)
      | None \<Rightarrow>
          (let texts = map content chunks;
               metadatas = map (\<lambda>c. (data_link c, chunk_id c)) chunks;
               st1 = st\<lparr>embedded := embedded st @ texts\<rparr>
           in case FAISS_from_texts L embedding_model_name texts metadatas of
                Inl e \<Rightarrow> (Inl e, st1)
              | Inr vector_store \<Rightarrow>
                  (let index_name = get_index_name (md5 L) json_file_path embedding_model_name;
                       index_path = os_path_join FAISS_INDEX_DIR index_name
                   in case os_makedirs FAISS_INDEX_DIR (disk st1) of
                        (fs1, Some e) \<Rightarrow> (Inl e, st1\<lparr>disk := fs1\<rparr>)
                      | (fs1, None) \<Rightarrow>
                          (case save_local index_path vector_store fs1 of
                             (fs2, Some e) \<Rightarrow> (Inl e, st1\<lparr>disk := fs2\<rparr>)
                           | (fs2, None) \<Rightarrow>
                               (Inr (vector_store, index_path), st1\<lparr>disk := fs2\<rparr>)))))"

text \<open>
  \<open>create_vector_store\<close> as decorated in line 58: a call whose arguments are in the
  table returns the value kept there and does not run the body; otherwise the body runs,
  and the value is kept when it returns.
\<close>

definition create_vector_store ::
  "'i library \<Rightarrow> chunk list \<Rightarrow> string \<Rightarrow> string \<Rightarrow> 'i app_state
     \<Rightarrow> (exn + 'i \<times> string) \<times> 'i app_state" where
  "create_vector_store L chunks embedding_model_name json_file_path st =
     (case create_cache st (chunks, embedding_model_name, json_file_path) of
        Some r \<Rightarrow> (Inr r, st)
      | None \<Rightarrow>
          (case create_vector_store_body L chunks embedding_model_name json_file_path st of
             (Inl e, st') \<Rightarrow> (Inl e, st')
           | (Inr r, st') \<Rightarrow>
               (Inr r,
                st'\<lparr>create_cache :=
                      (create_cache st')((chunks, embedding_model_name, json_file_path) \<mapsto> r)\<rparr>)))"

text \<open>The body of \<open>load_or_create_vector_store\<close> (lines 94 to 116).\<close>

definition load_or_create_vector_store_body ::
  "'i library \<Rightarrow> chunk list \<Rightarrow> string \<Rightarrow> string \<Rightarrow> 'i app_state
     \<Rightarrow> (exn + 'i) \<times> 'i app_state" where
  "load_or_create_vector_store_body L chunks embedding_model_name json_file_path st =
     (let index_name = get_index_name (md5 L) json_file_path embedding_model_name;
          index_path = os_path_join FAISS_INDEX_DIR index_name
      in if os_path_exists (disk st) index_path
         then (case embeddings_error L embedding_model_name of
                 Some e \<Rightarrow> (Inl e, st)
               | None \<Rightarrow>
                   (case load_local index_path (disk st) of
                      Inl e \<Rightarrow> (Inl e, st)
                    | Inr vector_store \<Rightarrow> (Inr vector_store, st)))
         else (case create_vector_store L chunks embedding_model_name json_file_path st of
                 (Inl e, st') \<Rightarrow> (Inl e, st')
               | (Inr (vector_store, index_path'), st') \<Rightarrow> (Inr vector_store, st')))"

text \<open>\<open>load_or_create_vector_store\<close> as decorated in line 93.\<close>

definition load_or_create_vector_store ::
  "'i library \<Rightarrow> chunk list \<Rightarrow> string \<Rightarrow> string \<Rightarrow> 'i app_state
     \<Rightarrow> (exn + 'i) \<times> 'i app_state" where
  "load_or_create_vector_store L chunks embedding_model_name json_file_path st =
     (case load_cache st (chunks, embedding_model_name, json_file_path) of
        Some vector_store \<Rightarrow> (Inr vector_store, st)
      | None \<Rightarrow>
          (case load_or_create_vector_store_body L chunks embedding_model_name json_file_path st of
             (Inl e, st') \<Rightarrow> (Inl e, st')
           | (Inr vector_store, st') \<Rightarrow>
               (Inr vector_store,
                st'\<lparr>load_cache :=
                      (load_cache st')
                        ((chunks, embedding_model_name, json_file_path) \<mapsto> vector_store)\<rparr>)))"

text \<open>The body of the button "Delete Existing Vector Store" in \<open>main\<close> (lines 286 to 293).\<close>

definition delete_vector_store ::
  "'i library \<Rightarrow> string \<Rightarrow> string \<Rightarrow> 'i app_state \<Rightarrow> 'i app_state \<times> exn option" where
  "delete_vector_store L json_file_path embedding_model_name st =
     (let index_name = get_index_name (md5 L) json_file_path embedding_model_name;
          index_path = os_path_join FAISS_INDEX_DIR index_name
      in if os_path_exists (disk st) index_path
         then (case os_remove index_path (disk st) of
                 (fs1, r) \<Rightarrow> (st\<lparr>disk := fs1\<rparr>, r))
         else (st, None))"

section \<open>A three-page site\<close>

text \<open>
  Page A links to B and C, and C links back to A. Page A carries two content blocks, one
  addressed by a fragment and one by a relative path.
\<close>

definition url_A :: string where "url_A = ''https://www.udelphi.com/''"
definition url_B :: string where "url_B = ''https://www.udelphi.com/b''"
definition url_C :: string where "url_C = ''https://www.udelphi.com/c''"

definition soup_A :: soup where
  "soup_A = \<lparr>data_link_elements = [(''#services'', ''Services''), (''team'', ''Team'')],
             a_hrefs = [url_B, url_C], page_get_text = ''Page A''\<rparr>"

definition soup_B :: soup where
  "soup_B = \<lparr>data_link_elements = [], a_hrefs = [], page_get_text = ''Page B''\<rparr>"

definition soup_C :: soup where
  "soup_C = \<lparr>data_link_elements = [], a_hrefs = [url_A], page_get_text = ''Page C''\<rparr>"

text \<open>
  The library functions on the URLs of this site: \<open>urljoin\<close> appends a fragment-only
  reference to a base without fragment and returns an absolute reference as it is; the
  scheme is the text before the first colon and the network location the text between
  \<open>//\<close> and the next slash; \<open>urljoin\<close> and \<open>urlparse\<close> raise \<open>ValueError\<close> on the
  reference \<open>http://[\<close> and return otherwise, and \<open>tldextract\<close> returns. The driver
  returns the URL as the page's source and the parser maps it to the page, and any other
  source to an empty page. The texts of \<open>hash\<close> are three different numbers.
\<close>

fun after_slashes :: "string \<Rightarrow> string" where
  "after_slashes [] = []"
| "after_slashes [c] = []"
| "after_slashes (c # d # r) =
     (if c = CHR ''/'' \<and> d = CHR ''/'' then r else after_slashes (d # r))"

definition simple_netloc :: "string \<Rightarrow> string" where
  "simple_netloc u = takeWhile (\<lambda>c. c \<noteq> CHR ''/'') (after_slashes u)"

definition simple_scheme :: "string \<Rightarrow> string" where
  "simple_scheme u = (if CHR '':'' \<in> set u then takeWhile (\<lambda>c. c \<noteq> CHR '':'') u else [])"

definition simple_urljoin :: "string \<Rightarrow> string \<Rightarrow> string" where
  "simple_urljoin base url = (if startswith url ''#'' then base @ url else url)"

definition soup_empty :: soup where
  "soup_empty = \<lparr>data_link_elements = [], a_hrefs = [], page_get_text = []\<rparr>"

definition site3_parser :: "string \<Rightarrow> soup option" where
  "site3_parser src =
     (if src = url_A then Some soup_A
      else if src = url_B then Some soup_B
      else if src = url_C then Some soup_C
      else Some soup_empty)"

definition site3 :: web where
  "site3 = \<lparr>page_source = (\<lambda>u. if u = url_A \<or> u = url_B \<or> u = url_C then Some u else None),
            html_parser = site3_parser,
            urljoin = simple_urljoin,
            url_netloc = simple_netloc,
            url_scheme = simple_scheme,
            tld_extract = (\<lambda>u. if simple_netloc u = ''www.udelphi.com'' \<or> u = ''www.udelphi.com''
                                then (''udelphi'', ''com'') else ([], [])),
            hash_str = (\<lambda>u. if u = url_A then ''7001''
                             else if u = url_B then ''7002''
                             else if u = url_C then ''7003''
                             else ''7000''),
            urljoin_error = (\<lambda>base url. if url = ''http://['' then Some ValueError else None),
            urlparse_error = (\<lambda>u. if u = ''http://['' then Some ValueError else None),
            tldextract_error = (\<lambda>u. None)\<rparr>"

text \<open>
  The same site with page B unreachable, with page B rejected by the parser, and with the
  reference \<open>http://[\<close> as the first anchor of page A.
\<close>

definition site3_bad_href :: web where
  "site3_bad_href =
     site3\<lparr>html_parser :=
             (\<lambda>src. if src = url_A then Some (soup_A\<lparr>a_hrefs := [''http://['', url_B, url_C]\<rparr>)
                    else site3_parser src)\<rparr>"



definition crawl_state0 :: crawl_state where
  "crawl_state0 = \<lparr>visited = {}, data_content = Map.empty, driver_gets = []\<rparr>"

definition site_state0 :: site_state where
  "site_state0 = \<lparr>visited_urls = {}, site_files = Map.empty, site_gets = []\<rparr>"

section \<open>Properties of a crawl, as predicates on its states\<close>

text \<open>
  \<open>fresh_gets V G V' G'\<close>: a run took the visited set from \<open>V\<close> to \<open>V'\<close> and the log of
  \<open>driver.get\<close> calls from \<open>G\<close> to \<open>G'\<close>; the log only grew, the URLs it got are pairwise
  different, none of them was in \<open>V\<close>, and all of them are in \<open>V'\<close>.
\<close>

definition fresh_gets :: "string set \<Rightarrow> string list \<Rightarrow> string set \<Rightarrow> string list \<Rightarrow> bool" where
  "fresh_gets V G V' G' =
     (let new = drop (length G) G'
      in V \<subseteq> V' \<and> G' = G @ new \<and> distinct new \<and> set new \<inter> V = {} \<and> set new \<subseteq> V')"

text \<open>
  An absolute URL has a scheme and a network location, as \<open>urlparse\<close> reports them.
\<close>

definition is_absolute_url :: "web \<Rightarrow> string \<Rightarrow> bool" where
  "is_absolute_url W u = (url_scheme W u \<noteq> [] \<and> url_netloc W u \<noteq> [])"

text \<open>The identifier under which line 30 stores the content of an element.\<close>

definition stored_link :: "web \<Rightarrow> string \<Rightarrow> string \<Rightarrow> string" where
  "stored_link W base_url link =
     (if startswith link ''#'' then urljoin W base_url link else link)"

text \<open>The \<open>data-link\<close> attributes found on a page, and whether fetching or parsing it fails.\<close>

definition page_data_links :: "web \<Rightarrow> string \<Rightarrow> string list" where
  "page_data_links W u =
     (case page_source W u of
        None \<Rightarrow> []
      | Some src \<Rightarrow>
          (case html_parser W src of
             None \<Rightarrow> []
           | Some sp \<Rightarrow> map fst (data_link_elements sp)))"


section \<open>Example files\<close>

text \<open>
  A chunk file whose links are a fragment, a relative path and an absolute URL, and the
  dataset of the specification's example. \<open>example_splitter\<close> is one library of
  splitters: it refuses a chunk size that is not positive and a negative overlap; with
  chunk size 15 and overlap 3 it cuts the text of that dataset into three pieces, and it
  leaves every other text whole.
\<close>

definition example_chunks :: "chunk list" where
  "example_chunks =
     [\<lparr>data_link = ''#services'', chunk_id = ''#services_chunk_0'', content = ''Services''\<rparr>,
      \<lparr>data_link = ''team'', chunk_id = ''team_chunk_0'', content = ''Team''\<rparr>,
      \<lparr>data_link = ''https://www.udelphi.com/b'', chunk_id = ''https://www.udelphi.com/b_chunk_0'',
        content = ''Page B''\<rparr>]"

definition chunks_path :: string where
  "chunks_path = ''./data/content_chunks.json''"


definition disk_with_chunks :: "'i fs" where
  "disk_with_chunks = [''./data'' \<mapsto> Directory, chunks_path \<mapsto> ChunksJson example_chunks]"






text \<open>The directory of the indices is absent or a directory.\<close>

definition index_dir_usable :: "'i fs \<Rightarrow> bool" where
  "index_dir_usable fs = (case fs FAISS_INDEX_DIR of None \<Rightarrow> True | Some e \<Rightarrow> is_dir e)"

text \<open>
  A library for closed instances: every embedding model loads, the vector store is the
  triple of the arguments of \<open>from_texts\<close>, and the digest is the decimal length of the
  string. The theorems hold for every library; this one only serves to state instances of
  them. \<open>app_state0\<close> is the state at the start of the server: an empty disk, nothing
  embedded, empty tables.
\<close>

definition example_library :: "(string \<times> string list \<times> (string \<times> string) list) library" where
  "example_library =
     \<lparr>embeddings_error = (\<lambda>model. None),
      from_texts = (\<lambda>model texts metadatas. Inr (model, texts, metadatas)),
      md5 = (\<lambda>s. str_nat (length s))\<rparr>"

definition app_state0 :: "'i app_state" where
  "app_state0 =
     \<lparr>disk = Map.empty, embedded = [], create_cache = Map.empty, load_cache = Map.empty\<rparr>"

definition model_MiniLM :: string where
  "model_MiniLM = ''sentence-transformers/all-MiniLM-L6-v2''"

definition model_distilroberta :: string where
  "model_distilroberta = ''sentence-transformers/all-distilroberta-v1''"

definition example_state0 :: "(string \<times> string list \<times> (string \<times> string) list) app_state" where
  "example_state0 =
     \<lparr>disk = Map.empty, embedded = [], create_cache = Map.empty, load_cache = Map.empty\<rparr>"

section \<open>Each URL is fetched at most once\<close>

lemma fresh_gets_iff:
  "fresh_gets V G V' G' \<longleftrightarrow>
     V \<subseteq> V' \<and> (\<exists>new. G' = G @ new \<and> distinct new \<and> set new \<inter> V = {} \<and> set new \<subseteq> V')"
  by (auto simp: fresh_gets_def Let_def)

lemma fresh_gets_refl: "fresh_gets V G V G"
  by (simp add: fresh_gets_def)

lemma fresh_gets_trans:
  assumes "fresh_gets V G V1 G1" and "fresh_gets V1 G1 V2 G2"
  shows "fresh_gets V G V2 G2"
proof -
  from assms(1) obtain n1 where n1: "V \<subseteq> V1" "G1 = G @ n1" "distinct n1" "set n1 \<inter> V = {}" "set n1 \<subseteq> V1"
    unfolding fresh_gets_iff by blast
  from assms(2) obtain n2 where n2: "V1 \<subseteq> V2" "G2 = G1 @ n2" "distinct n2" "set n2 \<inter> V1 = {}" "set n2 \<subseteq> V2"
    unfolding fresh_gets_iff by blast
  have "G2 = G @ (n1 @ n2)" using n1 n2 by simp
  moreover have "distinct (n1 @ n2)" using n1 n2 by auto
  moreover have "set (n1 @ n2) \<inter> V = {}" using n1 n2 by auto
  moreover have "set (n1 @ n2) \<subseteq> V2" using n1 n2 by auto
  moreover have "V \<subseteq> V2" using n1 n2 by auto
  ultimately show ?thesis unfolding fresh_gets_iff by blast
qed

lemma fresh_gets_visit:
  "u \<notin> V \<Longrightarrow> fresh_gets V G (insert u V) (G @ [u])"
  by (auto simp: fresh_gets_def)

lemma store_data_links_keeps:
  "visited (fst (store_data_links W b els st)) = visited st"
  "driver_gets (fst (store_data_links W b els st)) = driver_gets st"
  by (induction W b els st rule: store_data_links.induct) (auto split: option.splits)

lemma store_data_links_keeps':
  assumes "store_data_links W b els st = (st', r)"
  shows "visited st' = visited st" and "driver_gets st' = driver_gets st"
  using store_data_links_keeps[of W b els st] assms by simp_all

lemma crawl_fresh:
  "fresh_gets (visited st) (driver_gets st)
      (visited (fst (scrape_with_content W args st))) (driver_gets (fst (scrape_with_content W args st)))"
  "fresh_gets (visited st) (driver_gets st)
      (visited (fst (follow_links W base_url hrefs st))) (driver_gets (fst (follow_links W base_url hrefs st)))"
proof (induction W args st and W base_url hrefs st rule: scrape_with_content_follow_links.induct)
  case (1 W args st)
  show ?case
  proof (cases args)
    case Nil
    then show ?thesis by (simp add: fresh_gets_refl)
  next
    case (Cons base_url rest)
    show ?thesis
    proof (cases rest)
      case (Cons a list)
      with \<open>args = base_url # rest\<close> show ?thesis by (simp add: fresh_gets_refl)
    next
      case Nil
      with \<open>args = base_url # rest\<close> have args: "args = [base_url]" by simp
      show ?thesis
      proof (cases "base_url \<in> visited st")
        case True
        then show ?thesis using args by (simp add: fresh_gets_refl)
      next
        case False
        let ?st2 = "st\<lparr>visited := insert base_url (visited st), driver_gets := driver_gets st @ [base_url]\<rparr>"
        have step: "fresh_gets (visited st) (driver_gets st) (visited ?st2) (driver_gets ?st2)"
          using False by (simp add: fresh_gets_visit)
        show ?thesis
        proof (cases "page_source W base_url")
          case None
          then show ?thesis using args False step by (simp add: Let_def)
        next
          case (Some src)
          show ?thesis
          proof (cases "html_parser W src")
            case None
            then show ?thesis using args False step Some by (simp add: Let_def)
          next
            case (Some sp)
            obtain st3 r where sd: "store_data_links W base_url (data_link_elements sp) ?st2 = (st3, r)"
              by (cases "store_data_links W base_url (data_link_elements sp) ?st2")
            have keep: "visited st3 = visited ?st2" "driver_gets st3 = driver_gets ?st2"
              using store_data_links_keeps'[OF sd] by simp_all
            show ?thesis
            proof (cases r)
              case (Some e)
              then show ?thesis
                using args False \<open>page_source W base_url = Some src\<close> \<open>html_parser W src = Some sp\<close>
                  sd keep step
                by (simp add: Let_def)
            next
              case None
              have ih: "fresh_gets (visited st3) (driver_gets st3)
                  (visited (fst (follow_links W base_url (a_hrefs sp) st3)))
                  (driver_gets (fst (follow_links W base_url (a_hrefs sp) st3)))"
                using "1.IH"[OF \<open>args = base_url # rest\<close> Nil False refl refl
                        \<open>page_source W base_url = Some src\<close> \<open>html_parser W src = Some sp\<close>,
                      of st3 r] sd None
                by simp
              have "fresh_gets (visited st) (driver_gets st)
                  (visited (fst (follow_links W base_url (a_hrefs sp) st3)))
                  (driver_gets (fst (follow_links W base_url (a_hrefs sp) st3)))"
                using fresh_gets_trans[OF _ ih] step keep by simp
              then show ?thesis
                using args False \<open>page_source W base_url = Some src\<close> \<open>html_parser W src = Some sp\<close>
                  sd None
                by (simp add: Let_def)
            qed
          qed
        qed
      qed
    qed
  qed
next
  case (2 W base_url st)
  show ?case by (simp add: fresh_gets_refl)
next
  case (3 W base_url href rest st)
  let ?full = "urljoin W base_url href"
  show ?case
  proof (cases "urljoin_error W base_url href = None \<and> urlparse_error W ?full = None
                \<and> urlparse_error W base_url = None")
    case False
    then show ?thesis by (auto simp: Let_def fresh_gets_refl split: option.splits)
  next
    case ok: True
    show ?thesis
    proof (cases "url_netloc W ?full = url_netloc W base_url")
      case False
      then show ?thesis
        using ok "3.IH"(3)[of ?full] by (simp add: Let_def)
    next
      case True
      obtain st' r where call: "scrape_with_content W [?full, base_url] st = (st', r)"
        by (cases "scrape_with_content W [?full, base_url] st")
      have one: "fresh_gets (visited st) (driver_gets st) (visited st') (driver_gets st')"
        using "3.IH"(1)[of ?full] ok True call by simp
      show ?thesis
      proof (cases r)
        case (Some e)
        then show ?thesis using ok True call one by (simp add: Let_def)
      next
        case None
        have two: "fresh_gets (visited st') (driver_gets st')
             (visited (fst (follow_links W base_url rest st'))) (driver_gets (fst (follow_links W base_url rest st')))"
          using "3.IH"(2)[of ?full st' r] ok True call None by simp
        show ?thesis using ok True call None fresh_gets_trans[OF one two] by (simp add: Let_def)
      qed
    qed
  qed
qed

lemma save_page_text_keeps:
  "visited_urls (snd (save_page_text W u sp od st)) = visited_urls st"
  "site_gets (snd (save_page_text W u sp od st)) = site_gets st"
  by (auto simp: save_page_text_def Let_def split: prod.splits option.splits)

lemma save_to_combined_file_keeps:
  "visited_urls (fst (save_to_combined_file u t cf st)) = visited_urls st"
  "site_gets (fst (save_to_combined_file u t cf st)) = site_gets st"
  by (auto simp: save_to_combined_file_def Let_def split: option.splits)

lemma site_fresh:
  "fresh_gets (visited_urls st) (site_gets st)
      (visited_urls (fst (scrape_site W base_url domain od cf max_depth current_depth st)))
      (site_gets (fst (scrape_site W base_url domain od cf max_depth current_depth st)))"
  "fresh_gets (visited_urls st) (site_gets st)
      (visited_urls (fst (scrape_site_links W base_url domain od cf max_depth current_depth hrefs st)))
      (site_gets (fst (scrape_site_links W base_url domain od cf max_depth current_depth hrefs st)))"
proof (induction W base_url domain od cf max_depth current_depth st
          and W base_url domain od cf max_depth current_depth hrefs st
       rule: scrape_site_scrape_site_links.induct)
  case (1 W base_url domain od cf max_depth current_depth st)
  show ?case
  proof (cases "base_url \<in> visited_urls st \<or> current_depth > max_depth")
    case True
    then show ?thesis by (auto simp: fresh_gets_refl)
  next
    case False
    let ?st2 = "st\<lparr>visited_urls := insert base_url (visited_urls st),
                   site_gets := site_gets st @ [base_url]\<rparr>"
    have step: "fresh_gets (visited_urls st) (site_gets st) (visited_urls ?st2) (site_gets ?st2)"
      using False by (simp add: fresh_gets_visit)
    show ?thesis
    proof (cases "page_source W base_url")
      case None
      then show ?thesis using False step by (simp add: Let_def)
    next
      case (Some src)
      show ?thesis
      proof (cases "html_parser W src")
        case None
        then show ?thesis using False step Some by (simp add: Let_def)
      next
        case (Some sp)
        obtain res st3 where sv: "save_page_text W base_url sp od ?st2 = (res, st3)"
          by (cases "save_page_text W base_url sp od ?st2")
        have keep3: "visited_urls st3 = visited_urls ?st2" "site_gets st3 = site_gets ?st2"
          using save_page_text_keeps[of W base_url sp od ?st2] sv by simp_all
        show ?thesis
        proof (cases res)
          case (Inl e)
          then show ?thesis
            using False \<open>page_source W base_url = Some src\<close> Some sv keep3 step
            by (simp add: Let_def)
        next
          case (Inr page_text)
          obtain st4 r where cf: "save_to_combined_file base_url page_text cf st3 = (st4, r)"
            by (cases "save_to_combined_file base_url page_text cf st3")
          have keep: "visited_urls st4 = visited_urls ?st2" "site_gets st4 = site_gets ?st2"
            using save_to_combined_file_keeps[of base_url page_text cf st3] cf keep3 by simp_all
          show ?thesis
          proof (cases r)
            case (Some e)
            then show ?thesis
              using False \<open>page_source W base_url = Some src\<close> \<open>html_parser W src = Some sp\<close>
                sv Inr cf keep step
              by (simp add: Let_def)
          next
            case None
            have ih: "fresh_gets (visited_urls st4) (site_gets st4)
                (visited_urls (fst (scrape_site_links W base_url domain od cf max_depth current_depth (a_hrefs sp) st4)))
                (site_gets (fst (scrape_site_links W base_url domain od cf max_depth current_depth (a_hrefs sp) st4)))"
            proof -
              let ?st1 = "st\<lparr>visited_urls := insert base_url (visited_urls st)\<rparr>"
              have sv': "(res, st3) = save_page_text W base_url sp od
                           (?st1\<lparr>site_gets := site_gets ?st1 @ [base_url]\<rparr>)"
                using sv by simp
              show ?thesis
                by (rule "1.IH"[OF False refl refl \<open>page_source W base_url = Some src\<close>
                      \<open>html_parser W src = Some sp\<close> sv' Inr cf[symmetric] None])
            qed
            have "fresh_gets (visited_urls st) (site_gets st)
                (visited_urls (fst (scrape_site_links W base_url domain od cf max_depth current_depth (a_hrefs sp) st4)))
                (site_gets (fst (scrape_site_links W base_url domain od cf max_depth current_depth (a_hrefs sp) st4)))"
              using fresh_gets_trans[OF _ ih] step keep by simp
            then show ?thesis
              using False \<open>page_source W base_url = Some src\<close> \<open>html_parser W src = Some sp\<close>
                sv Inr cf None
              by (simp add: Let_def)
          qed
        qed
      qed
    qed
  qed
next
  case (2 W base_url domain od cf max_depth current_depth st)
  show ?case by (simp add: fresh_gets_refl)
next
  case (3 W base_url domain od cf max_depth current_depth href rest st)
  let ?full = "urljoin W base_url href"
  show ?case
  proof (cases "urljoin_error W base_url href")
    case (Some e)
    then show ?thesis by (simp add: fresh_gets_refl)
  next
    case noerr: None
    show ?thesis
    proof (cases "in_scope W ?full domain")
      case (Inl e)
      then show ?thesis using noerr by (simp add: Let_def fresh_gets_refl)
    next
      case (Inr go)
      show ?thesis
      proof (cases go)
        case False
        then show ?thesis
          using noerr Inr "3.IH"(3)[OF noerr refl Inr] by (simp add: Let_def)
      next
        case True
        obtain st' r where call:
          "scrape_site W ?full domain od cf max_depth (current_depth + 1) st = (st', r)"
          by (cases "scrape_site W ?full domain od cf max_depth (current_depth + 1) st")
        have one: "fresh_gets (visited_urls st) (site_gets st) (visited_urls st') (site_gets st')"
          using "3.IH"(1)[OF noerr refl Inr True] call by simp
        show ?thesis
        proof (cases r)
          case (Some e)
          then show ?thesis using noerr Inr True call one by (simp add: Let_def)
        next
          case None
          have two: "fresh_gets (visited_urls st') (site_gets st')
               (visited_urls (fst (scrape_site_links W base_url domain od cf max_depth current_depth rest st')))
               (site_gets (fst (scrape_site_links W base_url domain od cf max_depth current_depth rest st')))"
            using "3.IH"(2)[OF noerr refl Inr True call[symmetric] None] by simp
          show ?thesis
            using noerr Inr True call None fresh_gets_trans[OF one two] by (simp add: Let_def)
        qed
      qed
    qed
  qed
qed

text \<open>
  Both definitions were accepted with a termination proof. The next two lemmas state the
  fact for every argument, on the predicate that says the recursion is well founded there.
\<close>

lemma scrape_with_content_total:
  "scrape_with_content_follow_links_dom (Inl (W, args, st))"
  "scrape_with_content_follow_links_dom (Inr (W, base_url, hrefs, st))"
proof (induction W args st and W base_url hrefs st rule: scrape_with_content_follow_links.induct)
  case (1 W args st)
  show ?case
    by (rule scrape_with_content_follow_links.domintros) (use "1.IH" in simp)
next
  case (2 W base_url st)
  show ?case by (rule scrape_with_content_follow_links.domintros)
next
  case (3 W base_url href rest st)
  show ?case
    by (rule scrape_with_content_follow_links.domintros) (use "3.IH" in simp_all)
qed

lemma scrape_site_total:
  "scrape_site_scrape_site_links_dom (Inl (W, base_url, domain, od, cf, max_depth, current_depth, st))"
  "scrape_site_scrape_site_links_dom (Inr (W, base_url, domain, od, cf, max_depth, current_depth, hrefs, st))"
proof (induction W base_url domain od cf max_depth current_depth st
          and W base_url domain od cf max_depth current_depth hrefs st
       rule: scrape_site_scrape_site_links.induct)
  case (1 W base_url domain od cf max_depth current_depth st)
  show ?case
    by (rule scrape_site_scrape_site_links.domintros) (use "1.IH" in simp)
next
  case (2 W base_url domain od cf max_depth current_depth st)
  show ?case by (rule scrape_site_scrape_site_links.domintros)
next
  case (3 W base_url domain od cf max_depth current_depth href rest st)
  show ?case
    by (rule scrape_site_scrape_site_links.domintros) (use "3.IH" in simp_all)
qed

text \<open>
  Claim C1. For every behaviour of the browser and the parser, hence for every link graph,
  cyclic or not, and from every state of the globals, both crawlers terminate, and the
  URLs they hand to \<open>driver.get\<close> during the run are pairwise different and were not in
  the visited set when the run began: no URL is fetched twice, and a URL already visited
  is never fetched again.
\<close>

theorem crawl_fetches_once_and_terminates:
  "scrape_with_content_follow_links_dom (Inl (W, [start_url], st))
   \<and> fresh_gets (visited st) (driver_gets st)
        (visited (fst (scrape_with_content W [start_url] st)))
        (driver_gets (fst (scrape_with_content W [start_url] st)))
   \<and> scrape_site_scrape_site_links_dom
        (Inl (W, start_url, domain, output_dir, combined_file, max_depth, current_depth, st'))
   \<and> fresh_gets (visited_urls st') (site_gets st')
        (visited_urls (fst (scrape_site W start_url domain output_dir combined_file
                              max_depth current_depth st')))
        (site_gets (fst (scrape_site W start_url domain output_dir combined_file
                           max_depth current_depth st')))"
  by (intro conjI scrape_with_content_total(1) scrape_site_total(1) crawl_fresh(1) site_fresh(1))

section \<open>The recursive call of app/crawler.py\<close>

lemma follow_links_unchanged: "fst (follow_links W base_url hrefs st) = st"
  by (induction hrefs) (simp_all add: Let_def split: option.splits)


lemma scrape_with_content_visits_start_only:
  "visited (fst (scrape_with_content W [start_url] st)) = insert start_url (visited st)"
  by (auto simp: Let_def follow_links_unchanged dest: store_data_links_keeps'(1)
           split: option.splits prod.splits)

text \<open>
  Claim C5. On the three-page site (A links to B and C, C links back to A) the crawl of
  \<open>app/crawler.py\<close> started at A terminates with the visited set \<open>{A}\<close>: the call of
  line 37 passes three arguments, raises \<open>TypeError\<close> at the first in-scope link, and the
  handler of line 38 ends the visit of A. \<open>scrape_site\<close> of the other script, whose
  recursive call is well formed, ends with \<open>{A, B, C}\<close> on the same site.
\<close>

theorem three_page_site_visits_only_A:
  "visited (fst (scrape_with_content site3 [url_A] crawl_state0)) = {url_A}
   \<and> snd (follow_links site3 url_A [url_B, url_C] crawl_state0) = Some TypeError
   \<and> visited_urls (fst (scrape_site site3 url_A ''www.udelphi.com'' ''scraped_data''
                           ''combined_text.txt'' 3 0 site_state0)) = {url_A, url_B, url_C}"
  by code_simp

section \<open>Failures of one page\<close>










text \<open>
  The same happens when \<open>urljoin\<close> rejects an anchor, and when the output directory cannot
  be made because a file has its name: the crawl started at A ends with the exception
  before page B is visited.
\<close>

lemma bad_href_aborts_scrape_site:
  "snd (scrape_site site3_bad_href url_A ''www.udelphi.com'' ''scraped_data''
          ''combined_text.txt'' 3 0 site_state0) = Some ValueError
   \<and> url_B \<notin> visited_urls (fst (scrape_site site3_bad_href url_A ''www.udelphi.com''
          ''scraped_data'' ''combined_text.txt'' 3 0 site_state0))"
  by code_simp

lemma unwritable_output_aborts_scrape_site:
  "snd (scrape_site site3 url_A ''www.udelphi.com'' ''scraped_data'' ''combined_text.txt'' 3 0
          (site_state0\<lparr>site_files := [''scraped_data'' \<mapsto> SiteFile []]\<rparr>)) = Some FileExistsError
   \<and> url_B \<notin> visited_urls (fst (scrape_site site3 url_A ''www.udelphi.com'' ''scraped_data''
          ''combined_text.txt'' 3 0
          (site_state0\<lparr>site_files := [''scraped_data'' \<mapsto> SiteFile []]\<rparr>)))"
  by code_simp

section \<open>The identifiers under which content is stored\<close>

lemma store_data_links_dom:
  "dom (data_content (fst (store_data_links W b els st)))
     \<subseteq> dom (data_content st) \<union> stored_link W b ` fst ` set els"
proof (induction W b els st rule: store_data_links.induct)
  case (1 W base_url st)
  show ?case by simp
next
  case (2 W base_url l t els st)
  show ?case
  proof (cases "startswith l ''#''")
    case False
    let ?st = "st\<lparr>data_content := (data_content st)(l \<mapsto> t)\<rparr>"
    have "dom (data_content (fst (store_data_links W base_url els ?st)))
            \<subseteq> dom (data_content ?st) \<union> stored_link W base_url ` fst ` set els"
      using "2.IH"(2)[OF False] .
    moreover have "stored_link W base_url l = l" using False by (simp add: stored_link_def)
    ultimately show ?thesis using False by auto
  next
    case True
    show ?thesis
    proof (cases "urljoin_error W base_url l")
      case (Some e)
      then show ?thesis using True by auto
    next
      case None
      let ?st = "st\<lparr>data_content := (data_content st)(urljoin W base_url l \<mapsto> t)\<rparr>"
      have "dom (data_content (fst (store_data_links W base_url els ?st)))
              \<subseteq> dom (data_content ?st) \<union> stored_link W base_url ` fst ` set els"
        using "2.IH"(1)[OF True None] .
      moreover have "stored_link W base_url l = urljoin W base_url l"
        using True by (simp add: stored_link_def)
      ultimately show ?thesis using True None by auto
    qed
  qed
qed

lemma crawl_new_keys:
  "dom (data_content (fst (scrape_with_content W [u] st)))
     \<subseteq> dom (data_content st) \<union> stored_link W u ` set (page_data_links W u)"
proof (cases "u \<in> visited st")
  case True
  then show ?thesis by simp
next
  case False
  let ?st2 = "st\<lparr>visited := insert u (visited st), driver_gets := driver_gets st @ [u]\<rparr>"
  show ?thesis
  proof (cases "page_source W u")
    case None
    then show ?thesis using False by (simp add: Let_def)
  next
    case (Some src)
    show ?thesis
    proof (cases "html_parser W src")
      case None
      then show ?thesis using False Some by (simp add: Let_def)
    next
      case (Some sp)
      obtain st3 r where sd: "store_data_links W u (data_link_elements sp) ?st2 = (st3, r)"
        by (cases "store_data_links W u (data_link_elements sp) ?st2")
      have "fst (scrape_with_content W [u] st) = st3"
        using False \<open>page_source W u = Some src\<close> Some sd
        by (cases r) (simp_all add: Let_def follow_links_unchanged)
      moreover have "dom (data_content st3)
          \<subseteq> dom (data_content ?st2) \<union> stored_link W u ` fst ` set (data_link_elements sp)"
        using store_data_links_dom[of W u "data_link_elements sp" ?st2] sd by simp
      moreover have "page_data_links W u = map fst (data_link_elements sp)"
        using \<open>page_source W u = Some src\<close> Some by (simp add: page_data_links_def)
      ultimately show ?thesis by simp
    qed
  qed
qed

lemma stored_link_no_fragment:
  assumes "\<forall>l. startswith l ''#'' \<longrightarrow> \<not> startswith (urljoin W b l) ''#''"
  shows "\<not> startswith (stored_link W b l) ''#''"
  using assms by (simp add: stored_link_def)

lemma complete_data_link_prefix:
  "startswith (data_link (complete_data_link b c)) ''http''
   \<or> startswith (data_link (complete_data_link b c)) b"
  by (simp add: complete_data_link_def startswith_def)

lemma load_chunks_links:
  assumes "load_chunks fs path b = Inr cs" and "c \<in> set cs"
  shows "startswith (data_link c) ''http'' \<or> startswith (data_link c) b"
proof -
  from assms obtain x where "c = complete_data_link b x"
    by (auto simp: load_chunks_def split: if_splits option.splits fs_entry.splits)
  then show ?thesis
    using complete_data_link_prefix[of b x] by simp
qed

text \<open>
  Claim C8, as the code has it. An identifier that a visit adds to \<open>data_content\<close> is
  the \<open>data-link\<close> attribute itself when that does not start with \<open>#\<close>, and
  \<open>urljoin(base_url, data_link)\<close> when it does; so when \<open>urljoin\<close> against the
  page's URL returns nothing that starts with \<open>#\<close>, no stored identifier starts with
  \<open>#\<close>. Every \<open>data_link\<close> that \<open>load_chunks\<close> returns starts with \<open>http\<close> or with
  the base URL it was given.
\<close>

theorem stored_link_identifiers:
  assumes "\<forall>l. startswith l ''#'' \<longrightarrow> \<not> startswith (urljoin W base_url l) ''#''"
  shows "(\<forall>k \<in> dom (data_content (fst (scrape_with_content W [base_url] st)))
                 - dom (data_content st).
            k \<in> stored_link W base_url ` set (page_data_links W base_url)
            \<and> \<not> startswith k ''#'')
         \<and> (\<forall>cs. load_chunks fs path b = Inr cs \<longrightarrow>
               (\<forall>c \<in> set cs. startswith (data_link c) ''http'' \<or> startswith (data_link c) b))"
proof (intro conjI ballI allI impI)
  fix k
  assume "k \<in> dom (data_content (fst (scrape_with_content W [base_url] st)))
                 - dom (data_content st)"
  then show "k \<in> stored_link W base_url ` set (page_data_links W base_url)"
    using crawl_new_keys[of W base_url st] by blast
  then show "\<not> startswith k ''#''"
    using stored_link_no_fragment[OF assms] by blast
next
  fix cs c
  assume "load_chunks fs path b = Inr cs" and "c \<in> set cs"
  then show "startswith (data_link c) ''http'' \<or> startswith (data_link c) b"
    by (rule load_chunks_links)
qed

theorem stored_link_identifiers_witness:
  "''https://www.udelphi.com/#services''
     \<in> stored_link site3 url_A ` set (page_data_links site3 url_A)
   \<and> \<not> startswith ''https://www.udelphi.com/#services'' ''#''
   \<and> (startswith ''https://www.udelphi.com#services'' ''http''
        \<or> startswith ''https://www.udelphi.com#services'' BASE_URL)"
proof -
  have hyp: "\<forall>l. startswith l ''#'' \<longrightarrow> \<not> startswith (urljoin site3 url_A l) ''#''"
    by (simp add: site3_def simple_urljoin_def startswith_def url_A_def)
  have "data_content (fst (scrape_with_content site3 [url_A] crawl_state0))
          ''https://www.udelphi.com/#services'' = Some ''Services''"
    by code_simp
  then have k: "''https://www.udelphi.com/#services''
      \<in> dom (data_content (fst (scrape_with_content site3 [url_A] crawl_state0)))
        - dom (data_content crawl_state0)"
    by (auto simp: crawl_state0_def)
  have lc: "load_chunks (disk_with_chunks :: nat fs) chunks_path BASE_URL
      = Inr (map (complete_data_link BASE_URL) example_chunks)"
    by (simp add: load_chunks_def disk_with_chunks_def os_path_exists_def chunks_path_def)
  have c: "\<lparr>data_link = ''https://www.udelphi.com#services'', chunk_id = ''#services_chunk_0'',
            content = ''Services''\<rparr> \<in> set (map (complete_data_link BASE_URL) example_chunks)"
    by (simp add: example_chunks_def complete_data_link_def startswith_def BASE_URL_def)
  from stored_link_identifiers[OF hyp, of crawl_state0 "disk_with_chunks :: nat fs" chunks_path BASE_URL]
  show ?thesis using k lc c by fastforce
qed

text \<open>
  Claim C8 as stated fails: page A of the three-page site carries a block whose
  \<open>data-link\<close> is the relative path \<open>team\<close>; the crawler stores it under that key, which
  is not an absolute URL.
\<close>

theorem relative_link_stored_verbatim:
  "data_content (fst (scrape_with_content site3 [url_A] crawl_state0)) ''team'' = Some ''Team''
   \<and> \<not> is_absolute_url site3 ''team''"
  by code_simp

section \<open>Chunk identifiers\<close>







text \<open>
  A string that ends in an underscore followed by characters other than the underscore
  splits in one way only.
\<close>

lemma until_first:
  assumes "u \<notin> set as"
  shows "takeWhile (\<lambda>c. c \<noteq> u) (as @ u # bs) = as"
    and "dropWhile (\<lambda>c. c \<noteq> u) (as @ u # bs) = u # bs"
  using assms by (induction as) auto

lemma split_at_last_underscore:
  assumes "xs @ CHR ''_'' # ds = ys @ CHR ''_'' # es"
    and "CHR ''_'' \<notin> set ds" and "CHR ''_'' \<notin> set es"
  shows "xs = ys \<and> ds = es"
proof -
  have eq: "rev ds @ CHR ''_'' # rev xs = rev es @ CHR ''_'' # rev ys"
    using arg_cong[OF assms(1), of rev] by simp
  have d: "CHR ''_'' \<notin> set (rev ds)" and e: "CHR ''_'' \<notin> set (rev es)"
    using assms(2,3) by simp_all
  have "rev ds = takeWhile (\<lambda>c. c \<noteq> CHR ''_'') (rev ds @ CHR ''_'' # rev xs)"
    using until_first(1)[OF d] by simp
  also have "\<dots> = rev es"
    unfolding eq using until_first(1)[OF e] by simp
  finally have "ds = es" by simp
  moreover have "xs = ys" using assms(1) \<open>ds = es\<close> by simp
  ultimately show ?thesis by simp
qed



lemma enumerate_chunks_set:
  "set (enumerate_chunks link i cs)
     = (\<lambda>j. \<lparr>data_link = link, chunk_id = link @ ''_chunk_'' @ str_nat (i + j), content = cs ! j\<rparr>)
         ` {j. j < length cs}"
proof (induction cs arbitrary: i)
  case Nil
  show ?case by simp
next
  case (Cons c cs)
  let ?f = "\<lambda>i j. \<lparr>data_link = link, chunk_id = link @ ''_chunk_'' @ str_nat (i + j),
                      content = (c # cs) ! j\<rparr>"
  have split: "{j. j < length (c # cs)} = insert 0 (Suc ` {j. j < length cs})"
    by (auto simp: less_Suc_eq_0_disj)
  have "set (enumerate_chunks link i (c # cs))
          = insert (?f i 0) (set (enumerate_chunks link (i + 1) cs))"
    by simp
  also have "\<dots> = insert (?f i 0) ((\<lambda>j. ?f i (Suc j)) ` {j. j < length cs})"
    unfolding Cons.IH by simp
  also have "\<dots> = ?f i ` {j. j < length (c # cs)}"
    unfolding split by (simp add: image_image)
  finally show ?case .
qed



lemma split_items_set:
  "set (split_items split_text items)
     = (\<Union>(link, t) \<in> set items.
          (\<lambda>j. \<lparr>data_link = link, chunk_id = link @ ''_chunk_'' @ str_nat j,
                  content = split_text t ! j\<rparr>) ` {j. j < length (split_text t)})"
proof (induction items)
  case Nil
  show ?case by simp
next
  case (Cons a items)
  obtain link t where a: "a = (link, t)" by (cases a)
  show ?case unfolding a using Cons.IH by (simp add: enumerate_chunks_set)
qed



lemma chunk_content_writes:
  assumes "fs input_file = Some (DatasetJson data)"
    and "chunk_content splitter input_file output_file chunk_size chunk_overlap fs = (fs', None)"
  shows "\<exists>split_text. RecursiveCharacterTextSplitter splitter chunk_size chunk_overlap = Inr split_text
           \<and> fs' output_file = Some (ChunksJson (split_items split_text data))"
  using assms
  by (auto simp: chunk_content_def os_path_exists_def json_load_def json_dump_chunks_def
                 Let_def
           split: prod.splits option.splits if_splits sum.splits)



section \<open>Input validation of the chunker\<close>







section \<open>The name of the index\<close>

lemma unique_string_split: "unique_string p m = p @ CHR ''_'' # m"
  by (simp add: unique_string_def)

lemma unique_string_inj:
  assumes "unique_string p1 m1 = unique_string p2 m2"
    and "p1 = p2 \<or> m1 = m2 \<or> (CHR ''_'' \<notin> set m1 \<and> CHR ''_'' \<notin> set m2)"
  shows "p1 = p2 \<and> m1 = m2"
  using assms(2)
proof (elim disjE)
  assume "p1 = p2"
  then show ?thesis using assms(1) by (simp add: unique_string_split)
next
  assume "m1 = m2"
  then show ?thesis using assms(1) by (simp add: unique_string_split)
next
  assume "CHR ''_'' \<notin> set m1 \<and> CHR ''_'' \<notin> set m2"
  then show ?thesis
    using split_at_last_underscore[of p1 m1 p2 m2] assms(1) by (simp add: unique_string_split)
qed

lemma get_index_name_eq_iff:
  "get_index_name h p1 m1 = get_index_name h p2 m2
     \<longleftrightarrow> h (unique_string p1 m1) = h (unique_string p2 m2)"
  by (simp add: get_index_name_def)

text \<open>
  The name is \<open>faiss_index_\<close> followed by the digest of the path, an underscore and the
  model name. Two different pairs that agree in one component, or whose model names hold
  no underscore (as those of the three models the app offers), are hashed from different
  strings, and their names are equal exactly when the digest collides on these two
  strings.
\<close>

lemma index_name_separated:
  assumes "(p1, m1) \<noteq> (p2, m2)"
    and "p1 = p2 \<or> m1 = m2 \<or> (CHR ''_'' \<notin> set m1 \<and> CHR ''_'' \<notin> set m2)"
  shows "unique_string p1 m1 \<noteq> unique_string p2 m2
         \<and> (get_index_name h p1 m1 = get_index_name h p2 m2
              \<longleftrightarrow> h (unique_string p1 m1) = h (unique_string p2 m2))"
  using assms unique_string_inj[of p1 m1 p2 m2] get_index_name_eq_iff[of h p1 m1 p2 m2]
  by auto

text \<open>
  Moving a part that follows an underscore from the end of the path to the front of the
  model name changes both arguments and leaves the hashed string, hence the name, as it
  was, for every digest.
\<close>

lemma moved_suffix_same_name:
  "(p @ ''_'' @ s, m) \<noteq> (p, s @ ''_'' @ m)
   \<and> get_index_name h (p @ ''_'' @ s) m = get_index_name h p (s @ ''_'' @ m)"
  by (simp add: get_index_name_def unique_string_def)

text \<open>
  Claim C2. The name is a function of the two arguments, so the same pair always gets the
  same name. The other half of the claim fails, and with it the "unique index name" that
  the docstring of \<open>get_index_name\<close> promises: the pairs
  \<open>('./data/chunks', 'v2_minilm')\<close> and \<open>('./data/chunks_v2', 'minilm')\<close> differ and
  get the same name whatever the digest is, because line 24 joins them to the same
  string.
\<close>

theorem index_name_collision:
  "(''./data/chunks'', ''v2_minilm'') \<noteq> (''./data/chunks_v2'', ''minilm'')
   \<and> (\<forall>h. get_index_name h ''./data/chunks'' ''v2_minilm''
           = get_index_name h ''./data/chunks_v2'' ''minilm'')"
  by (simp add: get_index_name_def unique_string_def)

section \<open>Loading, building and deleting the index\<close>

lemma memoised_call:
  assumes "load_cache st (chunks, m, p) = Some idx"
  shows "load_or_create_vector_store L chunks m p st = (Inr idx, st)"
  using assms by (simp add: load_or_create_vector_store_def)

lemma load_existing_index:
  assumes "load_cache st (chunks, m, p) = None"
    and "embeddings_error L m = None"
    and "disk st (index_path_of (md5 L) p m) = Some (IndexFolder idx)"
  shows "load_or_create_vector_store L chunks m p st
           = (Inr idx, st\<lparr>load_cache := (load_cache st)((chunks, m, p) \<mapsto> idx)\<rparr>)"
  using assms
  by (simp add: load_or_create_vector_store_def load_or_create_vector_store_body_def
                index_path_of_def os_path_exists_def load_local_def Let_def)

lemma load_other_entry:
  assumes "load_cache st (chunks, m, p) = None"
    and "embeddings_error L m = None"
    and "disk st (index_path_of (md5 L) p m) = Some e"
    and "\<forall>idx. e \<noteq> IndexFolder idx"
  shows "load_or_create_vector_store L chunks m p st = (Inl RuntimeError, st)"
  using assms
  by (cases e)
     (simp_all add: load_or_create_vector_store_def load_or_create_vector_store_body_def
                    index_path_of_def os_path_exists_def load_local_def Let_def)

lemma build_from_no_chunks:
  assumes "load_cache st ([], m, p) = None" and "create_cache st ([], m, p) = None"
    and "embeddings_error L m = None"
    and "disk st (index_path_of (md5 L) p m) = None"
  shows "load_or_create_vector_store L [] m p st = (Inl IndexError, st)"
  using assms
  by (simp add: load_or_create_vector_store_def load_or_create_vector_store_body_def
                create_vector_store_def create_vector_store_body_def FAISS_from_texts_def
                index_path_of_def os_path_exists_def Let_def)

lemma create_vector_store_body_persists:
  assumes "index_dir_usable (disk st)" and "disk st (index_path_of (md5 L) p m) = None"
    and "chunks \<noteq> []" and "embeddings_error L m = None"
    and "from_texts L m (map content chunks) (map (\<lambda>c. (data_link c, chunk_id c)) chunks)
           = Inr idx"
  shows "\<exists>fs2. create_vector_store_body L chunks m p st
                 = (Inr (idx, index_path_of (md5 L) p m),
                    st\<lparr>embedded := embedded st @ map content chunks, disk := fs2\<rparr>)
               \<and> fs2 (index_path_of (md5 L) p m) = Some (IndexFolder idx)"
proof -
  let ?ip = "index_path_of (md5 L) p m"
  let ?st1 = "st\<lparr>embedded := embedded st @ map content chunks\<rparr>"
  obtain fs1 where mk: "os_makedirs FAISS_INDEX_DIR (disk st) = (fs1, None)"
    and fs1: "fs1 = disk st \<or> fs1 = (disk st)(FAISS_INDEX_DIR \<mapsto> Directory)"
    using assms(1)
    by (cases "disk st FAISS_INDEX_DIR")
       (auto simp: os_makedirs_def index_dir_usable_def FAISS_INDEX_DIR_def)
  have "fs1 ?ip = None \<or> fs1 ?ip = Some Directory"
    using fs1 assms(2) by auto
  then have sv: "save_local ?ip idx fs1 = (fs1(?ip \<mapsto> IndexFolder idx), None)"
    by (auto simp: save_local_def)
  have ft: "FAISS_from_texts L m (map content chunks) (map (\<lambda>c. (data_link c, chunk_id c)) chunks)
              = Inr idx"
    using assms(3,5) by (simp add: FAISS_from_texts_def)
  have "create_vector_store_body L chunks m p st
          = (Inr (idx, ?ip), ?st1\<lparr>disk := fs1(?ip \<mapsto> IndexFolder idx)\<rparr>)"
    using mk sv ft assms(4)
    by (simp add: create_vector_store_body_def Let_def index_path_of_def)
  then show ?thesis
    by (intro exI[of _ "fs1(?ip \<mapsto> IndexFolder idx)"]) simp
qed

lemma build_missing_index:
  assumes "load_cache st (chunks, m, p) = None" and "create_cache st (chunks, m, p) = None"
    and "index_dir_usable (disk st)" and "disk st (index_path_of (md5 L) p m) = None"
    and "chunks \<noteq> []" and "embeddings_error L m = None"
    and "from_texts L m (map content chunks) (map (\<lambda>c. (data_link c, chunk_id c)) chunks)
           = Inr idx"
  shows "\<exists>st'. load_or_create_vector_store L chunks m p st = (Inr idx, st')
               \<and> embedded st' = embedded st @ map content chunks
               \<and> disk st' (index_path_of (md5 L) p m) = Some (IndexFolder idx)
               \<and> load_or_create_vector_store L chunks m p st' = (Inr idx, st')"
proof -
  let ?ip = "index_path_of (md5 L) p m"
  let ?key = "(chunks, m, p)"
  from create_vector_store_body_persists[OF assms(3-7)]
  obtain fs2 where body: "create_vector_store_body L chunks m p st
        = (Inr (idx, ?ip), st\<lparr>embedded := embedded st @ map content chunks, disk := fs2\<rparr>)"
    and fs2: "fs2 ?ip = Some (IndexFolder idx)"
    by blast
  let ?st2 = "st\<lparr>embedded := embedded st @ map content chunks, disk := fs2\<rparr>"
  let ?st3 = "?st2\<lparr>create_cache := (create_cache ?st2)(?key \<mapsto> (idx, ?ip))\<rparr>"
  let ?st4 = "?st3\<lparr>load_cache := (load_cache ?st3)(?key \<mapsto> idx)\<rparr>"
  have cr: "create_vector_store L chunks m p st = (Inr (idx, ?ip), ?st3)"
    using assms(2) body by (simp add: create_vector_store_def)
  have bd: "load_or_create_vector_store_body L chunks m p st = (Inr idx, ?st3)"
    using assms(4) cr
    by (simp add: load_or_create_vector_store_body_def index_path_of_def os_path_exists_def Let_def)
  have run: "load_or_create_vector_store L chunks m p st = (Inr idx, ?st4)"
    using assms(1) bd by (simp add: load_or_create_vector_store_def)
  have again: "load_or_create_vector_store L chunks m p ?st4 = (Inr idx, ?st4)"
    by (rule memoised_call) simp
  have "embedded ?st4 = embedded st @ map content chunks" and "disk ?st4 ?ip = Some (IndexFolder idx)"
    using fs2 by simp_all
  then show ?thesis using run again by blast
qed

text \<open>
  Claim C3, as the code has it. A call whose arguments \<open>st.cache_resource\<close> has seen
  returns the index kept for them and does nothing else, whatever is on disk. Otherwise,
  when the folder of the index is at the path of the fingerprint and the embedding model
  loads, the call returns the index stored there and embeds no text; when something else
  is at that path, \<open>load_local\<close> raises. When nothing is at that path, none of the two
  tables knows the arguments, the directory of the indices can be used, the list of
  chunks is not empty, the embedding model loads and \<open>FAISS.from_texts\<close> returns, the
  call returns the index built from the contents of the chunks, each handed over once and
  in order, the index is in the folder at that path afterwards, and a second call with
  the same arguments returns the same index without embedding anything. On the empty list
  of chunks the build raises \<open>IndexError\<close> and nothing is persisted.
\<close>

theorem load_or_create_loads_or_builds:
  "(load_cache st (chunks, m, p) = Some idx \<longrightarrow>
      load_or_create_vector_store L chunks m p st = (Inr idx, st))
   \<and> (load_cache st (chunks, m, p) = None \<and> embeddings_error L m = None
      \<and> disk st (index_path_of (md5 L) p m) = Some (IndexFolder idx) \<longrightarrow>
      load_or_create_vector_store L chunks m p st
        = (Inr idx, st\<lparr>load_cache := (load_cache st)((chunks, m, p) \<mapsto> idx)\<rparr>))
   \<and> (load_cache st (chunks, m, p) = None \<and> embeddings_error L m = None
      \<and> disk st (index_path_of (md5 L) p m) = Some e \<and> (\<forall>idx. e \<noteq> IndexFolder idx) \<longrightarrow>
      load_or_create_vector_store L chunks m p st = (Inl RuntimeError, st))
   \<and> (load_cache st (chunks, m, p) = None \<and> create_cache st (chunks, m, p) = None
      \<and> index_dir_usable (disk st) \<and> disk st (index_path_of (md5 L) p m) = None
      \<and> chunks \<noteq> [] \<and> embeddings_error L m = None
      \<and> from_texts L m (map content chunks) (map (\<lambda>c. (data_link c, chunk_id c)) chunks)
          = Inr idx \<longrightarrow>
      (\<exists>st'. load_or_create_vector_store L chunks m p st = (Inr idx, st')
             \<and> embedded st' = embedded st @ map content chunks
             \<and> disk st' (index_path_of (md5 L) p m) = Some (IndexFolder idx)
             \<and> load_or_create_vector_store L chunks m p st' = (Inr idx, st')))
   \<and> (load_cache st ([], m, p) = None \<and> create_cache st ([], m, p) = None
      \<and> embeddings_error L m = None \<and> disk st (index_path_of (md5 L) p m) = None \<longrightarrow>
      load_or_create_vector_store L [] m p st = (Inl IndexError, st))"
proof (intro conjI impI)
  assume "load_cache st (chunks, m, p) = Some idx"
  then show "load_or_create_vector_store L chunks m p st = (Inr idx, st)"
    by (rule memoised_call)
next
  assume "load_cache st (chunks, m, p) = None \<and> embeddings_error L m = None
      \<and> disk st (index_path_of (md5 L) p m) = Some (IndexFolder idx)"
  then show "load_or_create_vector_store L chunks m p st
        = (Inr idx, st\<lparr>load_cache := (load_cache st)((chunks, m, p) \<mapsto> idx)\<rparr>)"
    using load_existing_index[of st chunks m p L idx] by simp
next
  assume "load_cache st (chunks, m, p) = None \<and> embeddings_error L m = None
      \<and> disk st (index_path_of (md5 L) p m) = Some e \<and> (\<forall>idx. e \<noteq> IndexFolder idx)"
  then show "load_or_create_vector_store L chunks m p st = (Inl RuntimeError, st)"
    using load_other_entry[of st chunks m p L e] by simp
next
  assume "load_cache st (chunks, m, p) = None \<and> create_cache st (chunks, m, p) = None
      \<and> index_dir_usable (disk st) \<and> disk st (index_path_of (md5 L) p m) = None
      \<and> chunks \<noteq> [] \<and> embeddings_error L m = None
      \<and> from_texts L m (map content chunks) (map (\<lambda>c. (data_link c, chunk_id c)) chunks)
          = Inr idx"
  then show "\<exists>st'. load_or_create_vector_store L chunks m p st = (Inr idx, st')
             \<and> embedded st' = embedded st @ map content chunks
             \<and> disk st' (index_path_of (md5 L) p m) = Some (IndexFolder idx)
             \<and> load_or_create_vector_store L chunks m p st' = (Inr idx, st')"
    using build_missing_index[of st chunks m p L idx] by simp
next
  assume "load_cache st ([], m, p) = None \<and> create_cache st ([], m, p) = None
      \<and> embeddings_error L m = None \<and> disk st (index_path_of (md5 L) p m) = None"
  then show "load_or_create_vector_store L [] m p st = (Inl IndexError, st)"
    using build_from_no_chunks[of st m p L] by simp
qed

theorem load_or_create_loads_or_builds_witness:
  "load_or_create_vector_store example_library example_chunks model_MiniLM chunks_path
     (example_state0\<lparr>load_cache :=
        [(example_chunks, model_MiniLM, chunks_path)
           \<mapsto> (model_MiniLM, [''Services''], [(''#services'', ''#services_chunk_0'')])]\<rparr>)
     = (Inr (model_MiniLM, [''Services''], [(''#services'', ''#services_chunk_0'')]),
        example_state0\<lparr>load_cache :=
          [(example_chunks, model_MiniLM, chunks_path)
             \<mapsto> (model_MiniLM, [''Services''], [(''#services'', ''#services_chunk_0'')])]\<rparr>)
   \<and> load_or_create_vector_store example_library example_chunks model_MiniLM chunks_path
       (example_state0\<lparr>disk :=
          [index_path_of (md5 example_library) chunks_path model_MiniLM
             \<mapsto> IndexFolder (model_MiniLM, [''Services''], [(''#services'', ''#services_chunk_0'')])]\<rparr>)
     = (Inr (model_MiniLM, [''Services''], [(''#services'', ''#services_chunk_0'')]),
        example_state0\<lparr>disk :=
          [index_path_of (md5 example_library) chunks_path model_MiniLM
             \<mapsto> IndexFolder (model_MiniLM, [''Services''], [(''#services'', ''#services_chunk_0'')])]\<rparr>
        \<lparr>load_cache :=
          (load_cache (example_state0\<lparr>disk :=
             [index_path_of (md5 example_library) chunks_path model_MiniLM
                \<mapsto> IndexFolder (model_MiniLM, [''Services''],
                                   [(''#services'', ''#services_chunk_0'')])]\<rparr>))
          ((example_chunks, model_MiniLM, chunks_path)
             \<mapsto> (model_MiniLM, [''Services''], [(''#services'', ''#services_chunk_0'')]))\<rparr>)
   \<and> load_or_create_vector_store example_library example_chunks model_MiniLM chunks_path
       (example_state0\<lparr>disk :=
          [index_path_of (md5 example_library) chunks_path model_MiniLM \<mapsto> Directory]\<rparr>)
     = (Inl RuntimeError,
        example_state0\<lparr>disk :=
          [index_path_of (md5 example_library) chunks_path model_MiniLM \<mapsto> Directory]\<rparr>)
   \<and> (\<exists>st'. load_or_create_vector_store example_library example_chunks model_MiniLM chunks_path
                  example_state0
                 = (Inr (model_MiniLM, map content example_chunks,
                         map (\<lambda>c. (data_link c, chunk_id c)) example_chunks), st')
             \<and> embedded st' = embedded example_state0 @ map content example_chunks
             \<and> disk st' (index_path_of (md5 example_library) chunks_path model_MiniLM)
                 = Some (IndexFolder (model_MiniLM, map content example_chunks,
                                      map (\<lambda>c. (data_link c, chunk_id c)) example_chunks))
             \<and> load_or_create_vector_store example_library example_chunks model_MiniLM chunks_path st'
                 = (Inr (model_MiniLM, map content example_chunks,
                         map (\<lambda>c. (data_link c, chunk_id c)) example_chunks), st'))
   \<and> load_or_create_vector_store example_library [] model_MiniLM chunks_path example_state0
     = (Inl IndexError, example_state0)"
proof -
  let ?ip = "index_path_of (md5 example_library) chunks_path model_MiniLM"
  let ?key = "(example_chunks, model_MiniLM, chunks_path)"
  let ?old = "(model_MiniLM, [''Services''], [(''#services'', ''#services_chunk_0'')])"
  let ?new = "(model_MiniLM, map content example_chunks,
               map (\<lambda>c. (data_link c, chunk_id c)) example_chunks)"
  let ?stA = "example_state0\<lparr>load_cache := [?key \<mapsto> ?old]\<rparr>"
  let ?stB = "example_state0\<lparr>disk := [?ip \<mapsto> IndexFolder ?old]\<rparr>"
  let ?stC = "example_state0\<lparr>disk := [?ip \<mapsto> Directory]\<rparr>"
  have hA: "load_cache ?stA ?key = Some ?old"
    by simp
  have hB: "load_cache ?stB ?key = None \<and> embeddings_error example_library model_MiniLM = None
            \<and> disk ?stB ?ip = Some (IndexFolder ?old)"
    by (simp add: example_state0_def example_library_def)
  have hC: "load_cache ?stC ?key = None \<and> embeddings_error example_library model_MiniLM = None
            \<and> disk ?stC ?ip = Some Directory \<and> (\<forall>idx. Directory \<noteq> IndexFolder idx)"
    by (simp add: example_state0_def example_library_def)
  have hD: "load_cache example_state0 ?key = None \<and> create_cache example_state0 ?key = None
            \<and> index_dir_usable (disk example_state0) \<and> disk example_state0 ?ip = None
            \<and> example_chunks \<noteq> [] \<and> embeddings_error example_library model_MiniLM = None
            \<and> from_texts example_library model_MiniLM (map content example_chunks)
                 (map (\<lambda>c. (data_link c, chunk_id c)) example_chunks) = Inr ?new"
    by (simp add: example_state0_def example_library_def index_dir_usable_def example_chunks_def)
  have hE: "load_cache example_state0 ([], model_MiniLM, chunks_path) = None
            \<and> create_cache example_state0 ([], model_MiniLM, chunks_path) = None
            \<and> embeddings_error example_library model_MiniLM = None
            \<and> disk example_state0 ?ip = None"
    by (simp add: example_state0_def example_library_def)
  note thmA = load_or_create_loads_or_builds
      [where st = ?stA and L = example_library and p = chunks_path and m = model_MiniLM
         and idx = ?old and chunks = example_chunks]
  note thmB = load_or_create_loads_or_builds
      [where st = ?stB and L = example_library and p = chunks_path and m = model_MiniLM
         and idx = ?old and chunks = example_chunks]
  note thmC = load_or_create_loads_or_builds
      [where st = ?stC and L = example_library and p = chunks_path and m = model_MiniLM
         and e = Directory and chunks = example_chunks]
  note thmD = load_or_create_loads_or_builds
      [where st = example_state0 and L = example_library and p = chunks_path
         and m = model_MiniLM and idx = ?new and chunks = example_chunks]
  have a: "load_or_create_vector_store example_library example_chunks model_MiniLM chunks_path ?stA
             = (Inr ?old, ?stA)"
    by (rule thmA[THEN conjunct1, THEN mp, OF hA])
  have b: "load_or_create_vector_store example_library example_chunks model_MiniLM chunks_path ?stB
             = (Inr ?old, ?stB\<lparr>load_cache := (load_cache ?stB)(?key \<mapsto> ?old)\<rparr>)"
    by (rule thmB[THEN conjunct2, THEN conjunct1, THEN mp, OF hB])
  have c: "load_or_create_vector_store example_library example_chunks model_MiniLM chunks_path ?stC
             = (Inl RuntimeError, ?stC)"
    by (rule thmC[THEN conjunct2, THEN conjunct2, THEN conjunct1, THEN mp, OF hC])
  have d: "\<exists>st'. load_or_create_vector_store example_library example_chunks model_MiniLM chunks_path
                  example_state0 = (Inr ?new, st')
             \<and> embedded st' = embedded example_state0 @ map content example_chunks
             \<and> disk st' ?ip = Some (IndexFolder ?new)
             \<and> load_or_create_vector_store example_library example_chunks model_MiniLM chunks_path st'
                 = (Inr ?new, st')"
    by (rule thmD[THEN conjunct2, THEN conjunct2, THEN conjunct2, THEN conjunct1, THEN mp, OF hD])
  have e: "load_or_create_vector_store example_library [] model_MiniLM chunks_path example_state0
             = (Inl IndexError, example_state0)"
    by (rule thmD[THEN conjunct2, THEN conjunct2, THEN conjunct2, THEN conjunct2, THEN mp, OF hE])
  show ?thesis
    using a b c d e by (intro conjI)
qed

text \<open>
  Claim C3 as stated fails in two ways. After the index has been built, the table of
  \<open>st.cache_resource\<close> answers the call: with the folder of the index gone from the disk,
  the call returns the index of the first run, embeds nothing and persists nothing. And
  on the empty list of chunks, with nothing on disk, the call raises \<open>IndexError\<close>
  instead of returning an index.
\<close>

theorem memoised_call_persists_nothing:
  "disk (snd (load_or_create_vector_store example_library example_chunks model_MiniLM chunks_path
                example_state0))
        (index_path_of (md5 example_library) chunks_path model_MiniLM)
     = Some (IndexFolder (model_MiniLM, map content example_chunks,
                          map (\<lambda>c. (data_link c, chunk_id c)) example_chunks))
   \<and> fst (load_or_create_vector_store example_library example_chunks model_MiniLM chunks_path
            ((snd (load_or_create_vector_store example_library example_chunks model_MiniLM
                     chunks_path example_state0))\<lparr>disk := Map.empty\<rparr>))
     = Inr (model_MiniLM, map content example_chunks,
            map (\<lambda>c. (data_link c, chunk_id c)) example_chunks)
   \<and> disk (snd (load_or_create_vector_store example_library example_chunks model_MiniLM chunks_path
            ((snd (load_or_create_vector_store example_library example_chunks model_MiniLM
                     chunks_path example_state0))\<lparr>disk := Map.empty\<rparr>)))
        (index_path_of (md5 example_library) chunks_path model_MiniLM) = None
   \<and> embedded (snd (load_or_create_vector_store example_library example_chunks model_MiniLM
            chunks_path
            ((snd (load_or_create_vector_store example_library example_chunks model_MiniLM
                     chunks_path example_state0))\<lparr>disk := Map.empty\<rparr>)))
     = map content example_chunks
   \<and> fst (load_or_create_vector_store example_library [] model_MiniLM chunks_path example_state0)
     = Inl IndexError"
  by code_simp

lemma delete_absent_index:
  assumes "disk st (index_path_of (md5 L) p m) = None"
  shows "delete_vector_store L p m st = (st, None)"
  using assms
  by (simp add: delete_vector_store_def index_path_of_def os_path_exists_def Let_def)

lemma delete_index_folder:
  assumes "disk st (index_path_of (md5 L) p m) = Some (IndexFolder idx)"
  shows "delete_vector_store L p m st = (st, Some IsADirectoryError)"
  using assms
  by (simp add: delete_vector_store_def index_path_of_def os_path_exists_def os_remove_def Let_def)

lemma first_run_persists_folder:
  fixes L :: "'i library"
  assumes "load_or_create_vector_store L chunks m p app_state0 = (Inr idx, st')"
  shows "disk st' (index_path_of (md5 L) p m) = Some (IndexFolder idx)"
proof -
  let ?s0 = "app_state0 :: 'i app_state"
  let ?ip = "index_path_of (md5 L) p m"
  let ?texts = "map content chunks"
  let ?metas = "map (\<lambda>c. (data_link c, chunk_id c)) chunks"
  have none: "disk ?s0 ?ip = None" "index_dir_usable (disk ?s0)"
    "load_cache ?s0 (chunks, m, p) = None" "create_cache ?s0 (chunks, m, p) = None"
    by (simp_all add: app_state0_def index_dir_usable_def)
  have body: "load_or_create_vector_store_body L chunks m p ?s0
                = (case create_vector_store L chunks m p ?s0 of
                     (Inl e, st') \<Rightarrow> (Inl e, st')
                   | (Inr (vector_store, index_path'), st') \<Rightarrow> (Inr vector_store, st'))"
    using none(1)
    by (simp add: load_or_create_vector_store_body_def index_path_of_def os_path_exists_def Let_def)
  have emb: "embeddings_error L m = None"
  proof (cases "embeddings_error L m")
    case (Some e)
    then have "load_or_create_vector_store L chunks m p ?s0 = (Inl e, ?s0)"
      using none(3,4) body
      by (simp add: load_or_create_vector_store_def create_vector_store_def
                    create_vector_store_body_def)
    then show ?thesis using assms by simp
  qed simp
  have ne: "chunks \<noteq> []"
  proof
    assume "chunks = []"
    then have "load_or_create_vector_store L chunks m p ?s0 = (Inl IndexError, ?s0)"
      using build_from_no_chunks[of ?s0 m p L] none emb by simp
    then show False using assms by simp
  qed
  obtain r where ft: "from_texts L m ?texts ?metas = r" by simp
  show ?thesis
  proof (cases r)
    case (Inl e)
    then have "fst (load_or_create_vector_store L chunks m p ?s0) = Inl e"
      using none(3,4) body emb ne ft
      by (simp add: load_or_create_vector_store_def create_vector_store_def
                    create_vector_store_body_def FAISS_from_texts_def Let_def)
    then show ?thesis using assms by simp
  next
    case (Inr idx')
    from build_missing_index[OF none(3,4,2,1) ne emb, of idx'] ft Inr
    obtain st2 where run: "load_or_create_vector_store L chunks m p ?s0 = (Inr idx', st2)"
      and dk: "disk st2 ?ip = Some (IndexFolder idx')"
      by auto
    then show ?thesis using assms by simp
  qed
qed

text \<open>
  Claim C9. Where no index is persisted the deletion returns normally and changes
  nothing. Where one is, it is a folder, written by \<open>save_local\<close>; \<open>os.remove\<close> raises
  on a folder, and the index stays on disk. The last part runs the build from the state
  at the start of the server and then the deletion: whenever the build returns an index,
  the index is in the folder and the deletion raises.
\<close>

theorem delete_fails_on_persisted_index:
  "delete_vector_store L p m app_state0 = (app_state0, None)
   \<and> (disk st (index_path_of (md5 L) p m) = None \<longrightarrow> delete_vector_store L p m st = (st, None))
   \<and> (disk st (index_path_of (md5 L) p m) = Some (IndexFolder idx) \<longrightarrow>
        delete_vector_store L p m st = (st, Some IsADirectoryError))
   \<and> (load_or_create_vector_store L chunks m p app_state0 = (Inr idx, st') \<longrightarrow>
        disk st' (index_path_of (md5 L) p m) = Some (IndexFolder idx)
        \<and> delete_vector_store L p m st' = (st', Some IsADirectoryError))"
proof (intro conjI impI)
  show "delete_vector_store L p m app_state0 = (app_state0, None)"
    by (rule delete_absent_index) (simp add: app_state0_def)
  show "delete_vector_store L p m st = (st, None)" if "disk st (index_path_of (md5 L) p m) = None"
    using that by (rule delete_absent_index)
  show "delete_vector_store L p m st = (st, Some IsADirectoryError)"
    if "disk st (index_path_of (md5 L) p m) = Some (IndexFolder idx)"
    using that by (rule delete_index_folder)
  show "disk st' (index_path_of (md5 L) p m) = Some (IndexFolder idx)"
    if "load_or_create_vector_store L chunks m p app_state0 = (Inr idx, st')"
    using that by (rule first_run_persists_folder)
  show "delete_vector_store L p m st' = (st', Some IsADirectoryError)"
    if "load_or_create_vector_store L chunks m p app_state0 = (Inr idx, st')"
    using first_run_persists_folder[OF that] by (rule delete_index_folder)
qed

theorem delete_fails_on_persisted_index_witness:
  "delete_vector_store example_library chunks_path model_MiniLM example_state0
     = (example_state0, None)
   \<and> delete_vector_store example_library chunks_path model_MiniLM
       (example_state0\<lparr>disk :=
          [index_path_of (md5 example_library) chunks_path model_MiniLM
             \<mapsto> IndexFolder (model_MiniLM, [''Services''], [(''#services'', ''#services_chunk_0'')])]\<rparr>)
     = (example_state0\<lparr>disk :=
          [index_path_of (md5 example_library) chunks_path model_MiniLM
             \<mapsto> IndexFolder (model_MiniLM, [''Services''], [(''#services'', ''#services_chunk_0'')])]\<rparr>,
        Some IsADirectoryError)
   \<and> disk (snd (load_or_create_vector_store example_library example_chunks model_MiniLM
                  chunks_path app_state0))
          (index_path_of (md5 example_library) chunks_path model_MiniLM)
       = Some (IndexFolder (model_MiniLM, map content example_chunks,
                            map (\<lambda>c. (data_link c, chunk_id c)) example_chunks))
   \<and> delete_vector_store example_library chunks_path model_MiniLM
       (snd (load_or_create_vector_store example_library example_chunks model_MiniLM
               chunks_path app_state0))
     = (snd (load_or_create_vector_store example_library example_chunks model_MiniLM
               chunks_path app_state0),
        Some IsADirectoryError)"
proof -
  let ?ip = "index_path_of (md5 example_library) chunks_path model_MiniLM"
  let ?old = "(model_MiniLM, [''Services''], [(''#services'', ''#services_chunk_0'')])"
  let ?new = "(model_MiniLM, map content example_chunks,
               map (\<lambda>c. (data_link c, chunk_id c)) example_chunks)"
  let ?stB = "example_state0\<lparr>disk := [?ip \<mapsto> IndexFolder ?old]\<rparr>"
  let ?run = "load_or_create_vector_store example_library example_chunks model_MiniLM
                chunks_path app_state0"
  have h1: "disk example_state0 ?ip = None"
    by (simp add: example_state0_def)
  have h2: "disk ?stB ?ip = Some (IndexFolder ?old)"
    by simp
  have "fst ?run = Inr ?new"
    by code_simp
  then have h3: "?run = (Inr ?new, snd ?run)"
    by (simp add: prod_eq_iff)
  note thmA = delete_fails_on_persisted_index
      [where L = example_library and p = chunks_path and m = model_MiniLM
         and st = example_state0]
  note thmB = delete_fails_on_persisted_index
      [where L = example_library and p = chunks_path and m = model_MiniLM
         and st = ?stB and idx = ?old]
  note thmC = delete_fails_on_persisted_index
      [where L = example_library and p = chunks_path and m = model_MiniLM
         and chunks = example_chunks and idx = ?new and st' = "snd ?run"]
  have a: "delete_vector_store example_library chunks_path model_MiniLM example_state0
             = (example_state0, None)"
    by (rule thmA[THEN conjunct2, THEN conjunct1, THEN mp, OF h1])
  have b: "delete_vector_store example_library chunks_path model_MiniLM ?stB
             = (?stB, Some IsADirectoryError)"
    by (rule thmB[THEN conjunct2, THEN conjunct2, THEN conjunct1, THEN mp, OF h2])
  have c: "disk (snd ?run) ?ip = Some (IndexFolder ?new)
           \<and> delete_vector_store example_library chunks_path model_MiniLM (snd ?run)
               = (snd ?run, Some IsADirectoryError)"
    by (rule thmC[THEN conjunct2, THEN conjunct2, THEN conjunct2, THEN mp, OF h3])
  show ?thesis
    using a b c by (intro conjI) simp_all
qed

section \<open>The texts of the chunks\<close>

text \<open>
  \<open>chunk_content\<close> stores the pieces that \<open>split_text\<close> returns as they are. A bound on
  the length of a chunk's text is therefore a bound on the pieces of the splitter, which
  belongs to the langchain library.
\<close>

lemma chunk_content_keeps_pieces:
  assumes "fs input_file = Some (DatasetJson data)"
    and "chunk_content splitter input_file output_file chunk_size chunk_overlap fs = (fs', None)"
    and "fs' output_file = Some (ChunksJson chunks)"
    and "c \<in> set chunks"
  shows "\<exists>split_text. RecursiveCharacterTextSplitter splitter chunk_size chunk_overlap = Inr split_text
           \<and> (\<exists>(link, t) \<in> set data. data_link c = link \<and> content c \<in> set (split_text t))"
proof -
  from chunk_content_writes[OF assms(1,2)] obtain split_text
    where sp: "RecursiveCharacterTextSplitter splitter chunk_size chunk_overlap = Inr split_text"
      and out: "fs' output_file = Some (ChunksJson (split_items split_text data))"
    by blast
  have "chunks = split_items split_text data"
    using out assms(3) by simp
  then have "c \<in> (\<Union>(link, t) \<in> set data.
          (\<lambda>j. \<lparr>data_link = link, chunk_id = link @ ''_chunk_'' @ str_nat j,
                  content = split_text t ! j\<rparr>)
            ` {j. j < length (split_text t)})"
    using assms(4) split_items_set[of split_text data] by simp
  then obtain link t j where "(link, t) \<in> set data"
    and "j < length (split_text t)"
    and "data_link c = link"
    and "content c = split_text t ! j"
    by auto
  then have "\<exists>(link, t) \<in> set data. data_link c = link \<and> content c \<in> set (split_text t)"
    by force
  then show ?thesis using sp by blast
qed

lemma str_nat_examples: "str_nat 0 = ''0''" "str_nat 10 = ''10''" "str_nat 2047 = ''2047''"
  by code_simp+


end
